theory Spec2Isabelle
  imports Main
begin

section \<open>JavaScript strings, numbers and arrays\<close>

text \<open>
  The plugin is TypeScript running on Node. A JavaScript string is a sequence of UTF-16
  code units; it is modelled as a \<^typ>\<open>string\<close>, each \<^typ>\<open>char\<close> standing for one
  code unit below 256 (the Latin-1 range), so \<open>length\<close> is \<open>.length\<close>. A JavaScript
  number that comes out of \<open>parseInt\<close> is an integer or \<open>NaN\<close>: it is an
  \<^typ>\<open>int option\<close>, \<open>None\<close> being \<open>NaN\<close> (integers are taken exactly, which
  JavaScript does below \<open>2^53\<close>). An optional parameter is an \<open>option\<close>, \<open>None\<close>
  being \<open>undefined\<close>.
\<close>

type_synonym number = "int option"

definition isWhiteSpace :: "char \<Rightarrow> bool" where
  \<comment> \<open>the class \<open>\s\<close>, which is also what \<open>trim\<close> strips: tab, line feed, vertical tab, form
      feed, carriage return, space, no-break space (the members below 256)\<close>
  "isWhiteSpace c \<longleftrightarrow> c \<in> {CHR 0x09, CHR 0x0A, CHR 0x0B, CHR 0x0C, CHR 0x0D, CHR 0x20, CHR 0xA0}"

definition charCode :: "char \<Rightarrow> nat" where
  \<comment> \<open>\<open>charCodeAt\<close>\<close>
  "charCode c = of_char c"

definition isDigit :: "char \<Rightarrow> bool" where
  \<comment> \<open>the class \<open>\d\<close>: \<open>0\<close> to \<open>9\<close>\<close>
  "isDigit c \<longleftrightarrow> 48 \<le> charCode c \<and> charCode c \<le> 57"

definition isLineTerminator :: "char \<Rightarrow> bool" where
  \<comment> \<open>what \<open>.\<close> does not match\<close>
  "isLineTerminator c \<longleftrightarrow> c = CHR 0x0A \<or> c = CHR 0x0D"

definition js_trim :: "string \<Rightarrow> string" where
  \<comment> \<open>\<open>String.prototype.trim\<close>\<close>
  "js_trim s = rev (dropWhile isWhiteSpace (rev (dropWhile isWhiteSpace s)))"

fun js_split_char :: "char \<Rightarrow> string \<Rightarrow> string list" where
  \<comment> \<open>\<open>s.split(d)\<close> for a one-character separator; the result is never the empty array, so
      the first branch of the \<open>case\<close> is never taken\<close>
  "js_split_char d [] = [[]]"
| "js_split_char d (c # cs) =
     (if c = d then [] # js_split_char d cs
      else (case js_split_char d cs of [] \<Rightarrow> [[c]] | piece # pieces \<Rightarrow> (c # piece) # pieces))"

fun js_split_lines :: "string \<Rightarrow> string list" where
  \<comment> \<open>\<open>s.split(/\r?\n/)\<close>: a line feed ends a piece, and a carriage return right before a
      line feed belongs to the separator\<close>
  "js_split_lines [] = [[]]"
| "js_split_lines (c # cs) =
     (if c = CHR 0x0A then [] # js_split_lines cs
      else if c = CHR 0x0D \<and> cs \<noteq> [] \<and> hd cs = CHR 0x0A then js_split_lines cs
      else (case js_split_lines cs of [] \<Rightarrow> [[c]] | piece # pieces \<Rightarrow> (c # piece) # pieces))"

fun js_split_ws :: "string \<Rightarrow> string list" where
  \<comment> \<open>\<open>s.split(/\s+/)\<close>: every maximal run of white space is one separator, so a string
      that starts (ends) with white space has an empty first (last) piece\<close>
  "js_split_ws [] = [[]]"
| "js_split_ws (c # cs) =
     (if isWhiteSpace c then
        (if cs \<noteq> [] \<and> isWhiteSpace (hd cs) then js_split_ws cs else [] # js_split_ws cs)
      else (case js_split_ws cs of [] \<Rightarrow> [[c]] | piece # pieces \<Rightarrow> (c # piece) # pieces))"

fun js_join :: "string \<Rightarrow> string list \<Rightarrow> string" where
  \<comment> \<open>\<open>xs.join(sep)\<close>\<close>
  "js_join sep [] = []"
| "js_join sep [x] = x"
| "js_join sep (x # y # ys) = x @ sep @ js_join sep (y # ys)"

definition relativeIndex :: "nat \<Rightarrow> number \<Rightarrow> nat" where
  \<comment> \<open>how \<open>Array.prototype.slice\<close> reads a bound: \<open>NaN\<close> is 0, a negative bound counts from
      the end, and the result is clamped to \<open>0 .. len\<close>\<close>
  "relativeIndex len n =
     (case n of
        None \<Rightarrow> 0
      | Some i \<Rightarrow> if i < 0 then nat (max (int len + i) 0) else min (nat i) len)"

definition js_slice :: "'a list \<Rightarrow> number \<Rightarrow> number \<Rightarrow> 'a list" where
  \<comment> \<open>\<open>xs.slice(start, end)\<close> with both bounds given\<close>
  "js_slice xs start end =
     (let k = relativeIndex (length xs) start; final = relativeIndex (length xs) end
      in take (final - k) (drop k xs))"

definition digitValue :: "char \<Rightarrow> nat" where
  \<comment> \<open>the value of a digit or letter in \<open>parseInt\<close>; 36 for any other character\<close>
  "digitValue c =
     (if 48 \<le> charCode c \<and> charCode c \<le> 57 then charCode c - 48
      else if 97 \<le> charCode c \<and> charCode c \<le> 122 then charCode c - 87
      else if 65 \<le> charCode c \<and> charCode c \<le> 90 then charCode c - 55
      else 36)"

definition parseInt :: "string \<Rightarrow> number" where
  \<comment> \<open>\<open>parseInt(s)\<close> with no radix: leading white space, a sign, a \<open>0x\<close> prefix for
      radix 16, then the longest run of digits; \<open>NaN\<close> when that run is empty\<close>
  "parseInt s =
     (let t = dropWhile isWhiteSpace s;
          neg = (t \<noteq> [] \<and> hd t = CHR ''-'');
          u = (if t \<noteq> [] \<and> (hd t = CHR ''-'' \<or> hd t = CHR ''+'') then tl t else t);
          hex = (take 2 u = ''0x'' \<or> take 2 u = ''0X'');
          radix = (if hex then 16 else 10);
          ds = takeWhile (\<lambda>c. digitValue c < radix) (if hex then drop 2 u else u);
          v = int (foldl (\<lambda>a c. a * radix + digitValue c) 0 ds)
      in if ds = [] then None else Some (if neg then - v else v))"

definition num_pred :: "number \<Rightarrow> number" where
  \<comment> \<open>\<open>n - 1\<close>\<close>
  "num_pred n = map_option (\<lambda>i. i - 1) n"

definition num_succ :: "number \<Rightarrow> number" where
  \<comment> \<open>\<open>n + 1\<close>\<close>
  "num_succ n = map_option (\<lambda>i. i + 1) n"

definition num_less :: "number \<Rightarrow> number \<Rightarrow> bool" where
  \<comment> \<open>\<open>a < b\<close>: false as soon as one side is \<open>NaN\<close>\<close>
  "num_less a b = (case (a, b) of (Some i, Some j) \<Rightarrow> i < j | _ \<Rightarrow> False)"

fun js_indexOf :: "string \<Rightarrow> string \<Rightarrow> nat option" where
  \<comment> \<open>\<open>s.indexOf(pat)\<close>, \<open>None\<close> for \<open>-1\<close>\<close>
  "js_indexOf [] pat = (if pat = [] then Some 0 else None)"
| "js_indexOf (c # cs) pat =
     (if take (length pat) (c # cs) = pat then Some 0 else map_option Suc (js_indexOf cs pat))"

fun getSubstitution :: "string \<Rightarrow> string \<Rightarrow> string \<Rightarrow> string \<Rightarrow> string" where
  \<comment> \<open>the replacement text of \<open>String.prototype.replace\<close> for a string pattern: in the
      replacement, \<open>$$\<close> is a dollar sign, \<open>$&\<close> the matched text, \<open>$`\<close> the text before
      the match and \<open>$'\<close> the text after it; there are no capture groups, so every other
      \<open>$\<close> stands for itself\<close>
  "getSubstitution matched before after [] = []"
| "getSubstitution matched before after [c] = [c]"
| "getSubstitution matched before after (c # d # r) =
     (if c = CHR ''$'' \<and> d = CHR ''$'' then CHR ''$'' # getSubstitution matched before after r
      else if c = CHR ''$'' \<and> d = CHR ''&'' then matched @ getSubstitution matched before after r
      else if c = CHR ''$'' \<and> d = CHR 0x60 then before @ getSubstitution matched before after r
      else if c = CHR ''$'' \<and> d = CHR 0x27 then after @ getSubstitution matched before after r
      else c # getSubstitution matched before after (d # r))"

definition js_replace :: "string \<Rightarrow> string \<Rightarrow> string \<Rightarrow> string" where
  \<comment> \<open>\<open>s.replace(pat, repl)\<close> for a string pattern: the first occurrence only\<close>
  "js_replace s pat repl =
     (case js_indexOf s pat of
        None \<Rightarrow> s
      | Some i \<Rightarrow>
          take i s
          @ getSubstitution pat (take i s) (drop (i + length pat) s) repl
          @ drop (i + length pat) s)"

definition toLowerCase :: "string \<Rightarrow> string" where
  \<comment> \<open>\<open>String.prototype.toLowerCase\<close> on code units below 256\<close>
  "toLowerCase s =
     map (\<lambda>c. if (65 \<le> charCode c \<and> charCode c \<le> 90)
                  \<or> (192 \<le> charCode c \<and> charCode c \<le> 222 \<and> charCode c \<noteq> 215)
               then char_of (charCode c + 32) else c) s"

fun numberToString :: "nat \<Rightarrow> string" where
  \<comment> \<open>\<open>n.toString()\<close> for a non-negative integer\<close>
  "numberToString n =
     (if n < 10 then [char_of (48 + n)]
      else numberToString (n div 10) @ [char_of (48 + n mod 10)])"

declare numberToString.simps [simp del]

section \<open>Range Selector: sliceLines\<close>

text \<open>
  \<open>sliceLines(content, startSpec, endSpec)\<close> of \<open>src/source/includeSettings.ts\<close>
  (lines 41 to 89). A spec that is \<open>undefined\<close> or the empty string is falsy. The end
  word is a \<^typ>\<open>number option\<close>: \<open>None\<close> is the \<open>undefined\<close> of the source,
  \<open>Some None\<close> is \<open>NaN\<close>. \<open>words.slice(startWord)\<close> has its end at \<open>words.length\<close>.
\<close>

definition sliceLines :: "string \<Rightarrow> string option \<Rightarrow> string option \<Rightarrow> string" where
  "sliceLines content startSpec endSpec =
     (case startSpec of
        None \<Rightarrow> content
      | Some startText \<Rightarrow>
          if startText = [] then content
          else
            let lines = js_split_lines content;
                startParts = js_split_char (CHR ''.'') startText;
                startLine = num_pred (parseInt (startParts ! 0));
                startWord = (if length startParts > 1 then parseInt (startParts ! 1) else Some 0);
                (endLine, endWord) =
                  (case endSpec of
                     None \<Rightarrow> (num_succ startLine, None)
                   | Some endText \<Rightarrow>
                       if endText = [] then (num_succ startLine, None)
                       else
                         let endParts = js_split_char (CHR ''.'') endText
                         in (parseInt (endParts ! 0),
                             if length endParts > 1 then Some (parseInt (endParts ! 1)) else None));
                selectedLines = js_slice lines startLine endLine
            in
              if length selectedLines = 0 then []
              else if num_less (Some 0) startWord \<or> endWord \<noteq> None then
                (if length selectedLines = 1 then
                   let words = js_split_ws (selectedLines ! 0);
                       wordEnd = (case endWord of Some e \<Rightarrow> e | None \<Rightarrow> Some (int (length words)))
                   in js_join '' '' (js_slice words startWord wordEnd)
                 else
                   let words = js_split_ws (selectedLines ! 0);
                       selected1 = selectedLines
                         [0 := js_join '' '' (js_slice words startWord (Some (int (length words))))];
                       selected2 =
                         (case endWord of
                            None \<Rightarrow> selected1
                          | Some e \<Rightarrow>
                              let lastWords = js_split_ws (selected1 ! (length selected1 - 1))
                              in selected1
                                   [length selected1 - 1 :=
                                      js_join '' '' (js_slice lastWords (Some 0) e)])
                   in js_join [CHR 0x0A] selected2)
              else js_join [CHR 0x0A] selectedLines)"

section \<open>Settings and the host\<close>

text \<open>
  \<open>IncludeSettings\<close> (\<open>src/source/includeSettings.ts\<close>, lines 1 to 11): every field is
  optional. \<open>customPattern\<close> and \<open>omissionIndicator\<close> are never read by the plugin.
\<close>

record settings =
  commonmarkRegex :: "bool option"
  markdownItRegex :: "bool option"
  notFoundMessage :: "string option"
  circularMessage :: "string option"
  quoteFormatting :: "bool option"
  quoteIncludeSource :: "bool option"
  quoteSourceLabel :: "string option"

definition DEFAULT_COMMONMARK_REGEX :: bool where
  "DEFAULT_COMMONMARK_REGEX = True"

definition DEFAULT_MARKDOWN_IT_REGEX :: bool where
  "DEFAULT_MARKDOWN_IT_REGEX = True"

definition DEFAULT_NOT_FOUND_MESSAGE :: string where
  "DEFAULT_NOT_FOUND_MESSAGE = ''File '' @ [CHR 0x27] @ ''{{FILE}}'' @ [CHR 0x27] @ '' not found''"

definition DEFAULT_CIRCULAR_MESSAGE :: string where
  "DEFAULT_CIRCULAR_MESSAGE =
     ''Circular reference between '' @ [CHR 0x27] @ ''{{FILE}}'' @ [CHR 0x27]
     @ '' and '' @ [CHR 0x27] @ ''{{PARENT}}'' @ [CHR 0x27]"

definition DEFAULT_QUOTE_FORMATTING :: bool where
  "DEFAULT_QUOTE_FORMATTING = False"

definition DEFAULT_QUOTE_INCLUDE_SOURCE :: bool where
  "DEFAULT_QUOTE_INCLUDE_SOURCE = True"

definition DEFAULT_QUOTE_SOURCE_LABEL :: string where
  "DEFAULT_QUOTE_SOURCE_LABEL = ''Source''"

definition orDefaultBool :: "bool option \<Rightarrow> bool \<Rightarrow> bool" where
  \<comment> \<open>\<open>x === undefined ? d : x\<close>\<close>
  "orDefaultBool x d = (case x of None \<Rightarrow> d | Some b \<Rightarrow> b)"

definition orDefaultString :: "string option \<Rightarrow> string \<Rightarrow> string" where
  \<comment> \<open>\<open>x || d\<close>: \<open>undefined\<close> and the empty string give the default\<close>
  "orDefaultString x d = (case x of None \<Rightarrow> d | Some t \<Rightarrow> if t = [] then d else t)"

text \<open>
  What the plugin asks of Node: \<open>path.resolve\<close>, \<open>path.dirname\<close>, \<open>path.basename\<close>,
  \<open>fs.existsSync\<close> and \<open>fs.readFileSync\<close>, which throws when the path cannot be read
  (\<open>None\<close>). They are parameters of the model.
\<close>

record host =
  resolve :: "string \<Rightarrow> string \<Rightarrow> string"
  dirname :: "string \<Rightarrow> string"
  basename :: "string \<Rightarrow> string"
  existsSync :: "string \<Rightarrow> bool"
  readFileSync :: "string \<Rightarrow> string option"

section \<open>Quote Formatter: formatQuote\<close>

text \<open>
  \<open>formatQuote\<close> (\<open>src/source/includeSettings.ts\<close>, lines 92 to 140) in three parts: the
  quoting of the lines (93 to 96), the line and column of the citation (104 to 134, with
  the \<open>for\<close> loop of lines 124 to 130 as \<open>columnLoop\<close>), and the assembly.
\<close>

definition quoteLines :: "string \<Rightarrow> string" where
  "quoteLines content =
     js_join [CHR 0x0A]
       (map (\<lambda>line. if length (js_trim line) = 0 then ''>'' else ''> '' @ line)
          (js_split_lines content))"

fun columnLoop :: "number \<Rightarrow> nat \<Rightarrow> string list \<Rightarrow> nat \<Rightarrow> nat" where
  \<comment> \<open>\<open>columnLoop wordOffset i ws charPos\<close>: the loop at index \<open>i\<close>, \<open>ws\<close> being
      \<open>words[i], words[i+1], ...\<close>; the loop ends at \<open>words.length\<close> or at \<open>wordOffset\<close>\<close>
  "columnLoop wordOffset i [] charPos = charPos"
| "columnLoop wordOffset i (w # ws) charPos =
     (if num_less (Some (int i)) wordOffset then
        columnLoop wordOffset (Suc i) ws
          (charPos + length w
           + (if num_less (Some (int i)) (num_pred wordOffset) \<or> length w > 0 then 1 else 0))
      else charPos)"

definition citationPosition :: "string option \<Rightarrow> string option \<Rightarrow> string \<times> string" where
  \<comment> \<open>\<open>(lineNumber, columnNumber)\<close>\<close>
  "citationPosition startLine originalContent =
     (case startLine of
        None \<Rightarrow> (''1'', ''1'')
      | Some startText \<Rightarrow>
          if startText = [] then (''1'', ''1'')
          else
            let startParts = js_split_char (CHR ''.'') startText;
                lineNumber = startParts ! 0
            in
              (case originalContent of
                 None \<Rightarrow> (lineNumber, ''1'')
               | Some original \<Rightarrow>
                   if length startParts > 1 \<and> original \<noteq> [] then
                     let wordOffset = parseInt (startParts ! 1);
                         lineIndex = num_pred (parseInt lineNumber);
                         lines = js_split_lines original
                     in
                       (case lineIndex of
                          None \<Rightarrow> (lineNumber, ''1'')
                        | Some li \<Rightarrow>
                            if li \<ge> 0 \<and> li < int (length lines) then
                              let line = lines ! nat li;
                                  words = js_split_ws line
                              in (lineNumber, numberToString (columnLoop wordOffset 0 words 1))
                            else (lineNumber, ''1''))
                   else (lineNumber, ''1'')))"

definition formatQuote ::
  "host \<Rightarrow> string \<Rightarrow> string \<Rightarrow> string \<Rightarrow> bool \<Rightarrow> string option \<Rightarrow> string option \<Rightarrow> string"
where
  "formatQuote H content sourcePath sourceLabel includeSource startLine originalContent =
     (let quoted = quoteLines content
      in
        if \<not> includeSource then quoted
        else
          let filename = basename H sourcePath;
              normalizedPath = map (\<lambda>c. if c = CHR 0x5C then CHR ''/'' else c) sourcePath;
              (lineNumber, columnNumber) = citationPosition startLine originalContent;
              vsCodeUri = ''vscode://file/'' @ normalizedPath @ '':'' @ lineNumber
                          @ '':'' @ columnNumber;
              sourceText = ''*'' @ sourceLabel @ '': ['' @ filename @ ''](<'' @ vsCodeUri @ ''>)*''
          in quoted @ [CHR 0x0A] @ ''> '' @ [CHR 0x0A] @ ''> '' @ sourceText)"

section \<open>Directive Matcher: the two patterns\<close>

text \<open>
  The regular expressions of the source use literals, character classes, sequence,
  alternation, capture groups, greedy \<open>?\<close> on groups and \<open>*\<close>, \<open>+\<close>, \<open>+?\<close> on character
  classes only. \<open>rmatch\<close> is the backtracking matcher of the language definition: it
  takes the continuation that matches the rest of the pattern, tries the alternatives in
  priority order and keeps the first that lets the continuation succeed. A state is the
  input still to read and the captures so far. Both patterns carry the flag \<open>i\<close>: a
  literal matches a character with the same canonical (upper-case) form.
\<close>

datatype rx =
    Lit string
  | Cls "char \<Rightarrow> bool"
  | Seq rx rx
  | Alt rx rx
  | Opt rx
  | Star "char \<Rightarrow> bool"
  | Plus "char \<Rightarrow> bool"
  | LazyPlus "char \<Rightarrow> bool"
  | Group nat rx

type_synonym mstate = "string \<times> string option list"

definition canonicalize :: "char \<Rightarrow> char" where
  "canonicalize c =
     (if (97 \<le> charCode c \<and> charCode c \<le> 122)
         \<or> (224 \<le> charCode c \<and> charCode c \<le> 254 \<and> charCode c \<noteq> 247)
      then char_of (charCode c - 32) else c)"

fun litMatch :: "string \<Rightarrow> string \<Rightarrow> string option" where
  \<comment> \<open>the input after the literal, when the input starts with it\<close>
  "litMatch [] s = Some s"
| "litMatch (a # t) [] = None"
| "litMatch (a # t) (c # cs) =
     (if canonicalize a = canonicalize c then litMatch t cs else None)"

fun starMatch ::
  "(char \<Rightarrow> bool) \<Rightarrow> (mstate \<Rightarrow> mstate option) \<Rightarrow> string \<Rightarrow> string option list \<Rightarrow> mstate option"
where
  \<comment> \<open>greedy: one more character first, then the continuation\<close>
  "starMatch P k [] caps = k ([], caps)"
| "starMatch P k (c # cs) caps =
     (if P c then
        (case starMatch P k cs caps of Some r \<Rightarrow> Some r | None \<Rightarrow> k (c # cs, caps))
      else k (c # cs, caps))"

fun lazyPlusMatch ::
  "(char \<Rightarrow> bool) \<Rightarrow> (mstate \<Rightarrow> mstate option) \<Rightarrow> string \<Rightarrow> string option list \<Rightarrow> mstate option"
where
  \<comment> \<open>lazy: the continuation first, then one more character\<close>
  "lazyPlusMatch P k [] caps = None"
| "lazyPlusMatch P k (c # cs) caps =
     (if P c then
        (case k (cs, caps) of Some r \<Rightarrow> Some r | None \<Rightarrow> lazyPlusMatch P k cs caps)
      else None)"

primrec rmatch :: "rx \<Rightarrow> (mstate \<Rightarrow> mstate option) \<Rightarrow> mstate \<Rightarrow> mstate option" where
  "rmatch (Lit t) k st =
     (case litMatch t (fst st) of None \<Rightarrow> None | Some rest \<Rightarrow> k (rest, snd st))"
| "rmatch (Cls P) k st =
     (case fst st of [] \<Rightarrow> None | c # cs \<Rightarrow> if P c then k (cs, snd st) else None)"
| "rmatch (Seq a b) k st = rmatch a (rmatch b k) st"
| "rmatch (Alt a b) k st =
     (case rmatch a k st of Some r \<Rightarrow> Some r | None \<Rightarrow> rmatch b k st)"
| "rmatch (Opt a) k st =
     (case rmatch a (\<lambda>st'. if length (fst st') = length (fst st) then None else k st') st of
        Some r \<Rightarrow> Some r
      | None \<Rightarrow> k st)"
| "rmatch (Star P) k st = starMatch P k (fst st) (snd st)"
| "rmatch (Plus P) k st =
     (case fst st of
        [] \<Rightarrow> None
      | c # cs \<Rightarrow> if P c then starMatch P k cs (snd st) else None)"
| "rmatch (LazyPlus P) k st = lazyPlusMatch P k (fst st) (snd st)"
| "rmatch (Group n a) k st =
     rmatch a
       (\<lambda>st'. k (fst st',
                 (snd st')[n := Some (take (length (fst st) - length (fst st')) (fst st))]))
       st"

record regexResult =
  match_index :: nat
  match_text :: string
  match_groups :: "string option list"

definition capture :: "regexResult \<Rightarrow> nat \<Rightarrow> string option" where
  \<comment> \<open>\<open>regexResult[n]\<close> for \<open>n > 0\<close>; \<open>match_text\<close> is \<open>regexResult[0]\<close>\<close>
  "capture m n = (if n < length (match_groups m) then match_groups m ! n else None)"

definition matchAt :: "rx \<Rightarrow> nat \<Rightarrow> nat \<Rightarrow> string \<Rightarrow> regexResult option" where
  "matchAt r ngroups i s =
     (case rmatch r Some (s, replicate (Suc ngroups) None) of
        None \<Rightarrow> None
      | Some (rest, caps) \<Rightarrow>
          Some \<lparr>match_index = i, match_text = take (length s - length rest) s,
                match_groups = caps\<rparr>)"

fun execFrom :: "rx \<Rightarrow> nat \<Rightarrow> nat \<Rightarrow> string \<Rightarrow> regexResult option" where
  "execFrom r ngroups i [] = matchAt r ngroups i []"
| "execFrom r ngroups i (c # cs) =
     (case matchAt r ngroups i (c # cs) of
        Some m \<Rightarrow> Some m
      | None \<Rightarrow> execFrom r ngroups (Suc i) cs)"

definition regex_exec :: "rx \<Rightarrow> nat \<Rightarrow> string \<Rightarrow> regexResult option" where
  \<comment> \<open>\<open>pattern.exec(s)\<close> for a pattern that is neither global nor sticky: the leftmost
      match, \<open>None\<close> for \<open>null\<close>\<close>
  "regex_exec r ngroups s = execFrom r ngroups 0 s"

fun seqs :: "rx list \<Rightarrow> rx" where
  "seqs [] = Lit []"
| "seqs [r] = r"
| "seqs (r # rs) = Seq r (seqs rs)"

definition lineSpec :: rx where
  \<comment> \<open>\<open>\d+(?:\.\d+)?\<close>\<close>
  "lineSpec = Seq (Plus isDigit) (Opt (Seq (Lit ''.'') (Plus isDigit)))"

definition quoteModifier :: "nat \<Rightarrow> rx" where
  \<comment> \<open>\<open>(?:\{\s*(noquote|quote)\s*\})?\<close>\<close>
  "quoteModifier n =
     Opt (seqs [Lit ''{'', Star isWhiteSpace, Group n (Alt (Lit ''noquote'') (Lit ''quote'')),
                Star isWhiteSpace, Lit ''}''])"

definition COMMONMARK_PATTERN :: rx where
  \<comment> \<open>\<open>/\:(?:\[([^|\]]*)\|?([^\]]*)\])?\(([^)#]+)(?:#L(\d+(?:\.\d+)?)(?:-(\d+(?:\.\d+)?))?)?\)\s*(?:\{\s*(noquote|quote)\s*\})?/i\<close>\<close>
  "COMMONMARK_PATTERN =
     seqs [Lit '':'',
           Opt (seqs [Lit ''['',
                      Group 1 (Star (\<lambda>c. c \<noteq> CHR ''|'' \<and> c \<noteq> CHR '']'')),
                      Opt (Lit ''|''),
                      Group 2 (Star (\<lambda>c. c \<noteq> CHR '']'')),
                      Lit '']'']),
           Lit ''('',
           Group 3 (Plus (\<lambda>c. c \<noteq> CHR '')'' \<and> c \<noteq> CHR ''#'')),
           Opt (seqs [Lit ''#L'', Group 4 lineSpec, Opt (Seq (Lit ''-'') (Group 5 lineSpec))]),
           Lit '')'',
           Star isWhiteSpace,
           quoteModifier 6]"

definition MARKDOWN_IT_PATTERN :: rx where
  \<comment> \<open>\<open>/\!{3}\s*include\s*\(\s*(.+?)(?:\s*#L(\d+(?:\.\d+)?)(?:-(\d+(?:\.\d+)?))?)?\s*\)\s*(?:\{\s*(noquote|quote)\s*\})?\s*\!{3}/i\<close>\<close>
  "MARKDOWN_IT_PATTERN =
     seqs [Lit ''!!!'', Star isWhiteSpace, Lit ''include'', Star isWhiteSpace, Lit ''('',
           Star isWhiteSpace,
           Group 1 (LazyPlus (\<lambda>c. \<not> isLineTerminator c)),
           Opt (seqs [Star isWhiteSpace, Lit ''#L'', Group 2 lineSpec,
                      Opt (Seq (Lit ''-'') (Group 3 lineSpec))]),
           Star isWhiteSpace, Lit '')'', Star isWhiteSpace,
           quoteModifier 4,
           Star isWhiteSpace, Lit ''!!!'']"

section \<open>Resolver/Expander: replace and execute\<close>

text \<open>
  \<open>replace\<close> (lines 142 to 184) and \<open>execute\<close> (lines 186 to 232) call each other, and
  the two \<open>while\<close> loops of \<open>execute\<close> run as long as their pattern matches: nothing
  bounds the recursion or the loops. The model takes fuel: \<open>execute\<close> with fuel \<open>Suc n\<close>
  runs each of its loops for at most \<open>n\<close> iterations and gives the calls of \<open>execute\<close>
  made by \<open>replace\<close> the fuel \<open>n\<close>; \<open>None\<close> is the run that has not returned within the
  fuel. A run that returns gives \<open>Some (Inr text)\<close>, a run that throws gives
  \<open>Some (Inl e)\<close>: \<open>readFileSync\<close> throws when the file cannot be read, and \<open>.trim()\<close>
  on an \<open>undefined\<close> capture would throw.

  \<open>replace\<close> takes the \<open>execute\<close> it calls as its first argument, which is how the mutual
  recursion is tied. \<open>directiveLoop\<close> is the loop
  \<open>while ((regexResult = PATTERN.exec(parentContent))) { parentContent = replace(...) }\<close>
  of lines 195 to 209 and of lines 214 to 228.

  \<open>execute\<close> copies the array it receives (\<open>processedFiles.slice()\<close>, or a new array when
  it receives none) and pushes \<open>parentFile\<close> on the copy; the array of the caller is never
  written. The copy with the push is the list \<open>ps @ [parentFile]\<close>. \<open>parentFile\<close> is never
  \<open>undefined\<close>: \<open>trigger\<close> returns before the call when it is, and \<open>replace\<close> passes a
  resolved path.
\<close>

datatype error = ReadError | TypeError

type_synonym outcome = "(error + string) option"

definition shouldQuote :: "settings \<Rightarrow> string option \<Rightarrow> bool" where
  \<comment> \<open>lines 171 and 174\<close>
  "shouldQuote S quoteOverride =
     (let globalQuote = orDefaultBool (quoteFormatting S) DEFAULT_QUOTE_FORMATTING
      in case quoteOverride of
           None \<Rightarrow> globalQuote
         | Some q \<Rightarrow> if q = [] then globalQuote else toLowerCase q = ''quote'')"

definition spliceMatch :: "regexResult \<Rightarrow> string \<Rightarrow> string \<Rightarrow> string" where
  \<comment> \<open>lines 181 to 183\<close>
  "spliceMatch regexResult parentContent childContent =
     take (match_index regexResult) parentContent
     @ childContent
     @ drop (match_index regexResult + length (match_text regexResult)) parentContent"

definition replace ::
  "(string \<Rightarrow> string \<Rightarrow> string list option \<Rightarrow> outcome) \<Rightarrow> settings \<Rightarrow> host \<Rightarrow> regexResult
     \<Rightarrow> string \<Rightarrow> string \<Rightarrow> string \<Rightarrow> string \<Rightarrow> string \<Rightarrow> string \<Rightarrow> string list
     \<Rightarrow> string option \<Rightarrow> string option \<Rightarrow> string option \<Rightarrow> outcome"
where
  "replace execute' S H regexResult parentContent parentFolder parentFile childName
       notFoundMessage' circulareMessage processedFiles startLine endLine quoteOverride =
     (let childFile = resolve H parentFolder childName
      in
        case (if \<not> existsSync H childFile then
                Some (Inr (js_replace notFoundMessage' ''{{FILE}}'' childFile))
              else if childFile \<in> set processedFiles then
                Some (Inr (js_replace (js_replace circulareMessage ''{{FILE}}'' childFile)
                             ''{{PARENT}}'' parentFile))
              else
                (case readFileSync H childFile of
                   None \<Rightarrow> Some (Inl ReadError)
                 | Some originalContent \<Rightarrow>
                     (case execute' (sliceLines originalContent startLine endLine)
                             childFile (Some processedFiles) of
                        Some (Inr expanded) \<Rightarrow>
                          let includeSource = orDefaultBool (quoteIncludeSource S)
                                                DEFAULT_QUOTE_INCLUDE_SOURCE;
                              sourceLabel = orDefaultString (quoteSourceLabel S)
                                              DEFAULT_QUOTE_SOURCE_LABEL
                          in
                            if shouldQuote S quoteOverride then
                              Some (Inr (formatQuote H expanded childFile sourceLabel
                                           includeSource startLine (Some originalContent)))
                            else Some (Inr expanded)
                      | other \<Rightarrow> other))) of
          Some (Inr childContent) \<Rightarrow> Some (Inr (spliceMatch regexResult parentContent childContent))
        | other \<Rightarrow> other)"

fun directiveLoop ::
  "nat \<Rightarrow> (string \<Rightarrow> regexResult option) \<Rightarrow> (regexResult \<Rightarrow> string \<Rightarrow> outcome) \<Rightarrow> string
     \<Rightarrow> outcome"
where
  "directiveLoop 0 exec body parentContent = None"
| "directiveLoop (Suc n) exec body parentContent =
     (case exec parentContent of
        None \<Rightarrow> Some (Inr parentContent)
      | Some regexResult \<Rightarrow>
          (case body regexResult parentContent of
             Some (Inr content') \<Rightarrow> directiveLoop n exec body content'
           | other \<Rightarrow> other))"

definition commonmarkStep ::
  "(string \<Rightarrow> string \<Rightarrow> string list option \<Rightarrow> outcome) \<Rightarrow> settings \<Rightarrow> host \<Rightarrow> string \<Rightarrow> string
     \<Rightarrow> string list \<Rightarrow> regexResult \<Rightarrow> string \<Rightarrow> outcome"
where
  \<comment> \<open>the body of the first loop, lines 196 to 208\<close>
  "commonmarkStep execute' S H parentFolder parentFile processedFiles regexResult parentContent =
     (case capture regexResult 3 of
        None \<Rightarrow> Some (Inl TypeError)
      | Some fileName \<Rightarrow>
          replace execute' S H regexResult parentContent parentFolder parentFile
            (js_trim fileName)
            (orDefaultString (notFoundMessage S) DEFAULT_NOT_FOUND_MESSAGE)
            (orDefaultString (circularMessage S) DEFAULT_CIRCULAR_MESSAGE)
            processedFiles
            (capture regexResult 4) (capture regexResult 5) (capture regexResult 6))"

definition markdownItStep ::
  "(string \<Rightarrow> string \<Rightarrow> string list option \<Rightarrow> outcome) \<Rightarrow> settings \<Rightarrow> host \<Rightarrow> string \<Rightarrow> string
     \<Rightarrow> string list \<Rightarrow> regexResult \<Rightarrow> string \<Rightarrow> outcome"
where
  \<comment> \<open>the body of the second loop, lines 215 to 227\<close>
  "markdownItStep execute' S H parentFolder parentFile processedFiles regexResult parentContent =
     (case capture regexResult 1 of
        None \<Rightarrow> Some (Inl TypeError)
      | Some fileName \<Rightarrow>
          replace execute' S H regexResult parentContent parentFolder parentFile
            (js_trim fileName)
            (orDefaultString (notFoundMessage S) DEFAULT_NOT_FOUND_MESSAGE)
            (orDefaultString (circularMessage S) DEFAULT_CIRCULAR_MESSAGE)
            processedFiles
            (capture regexResult 2) (capture regexResult 3) (capture regexResult 4))"

primrec execute ::
  "nat \<Rightarrow> settings \<Rightarrow> host \<Rightarrow> string \<Rightarrow> string \<Rightarrow> string list option \<Rightarrow> outcome"
where
  "execute 0 S H parentContent parentFile processedFiles = None"
| "execute (Suc n) S H parentContent parentFile processedFiles =
     (let processed = (case processedFiles of None \<Rightarrow> [] | Some ps \<Rightarrow> ps) @ [parentFile];
          parentFolder = dirname H parentFile
      in
        case (if orDefaultBool (commonmarkRegex S) DEFAULT_COMMONMARK_REGEX
              then directiveLoop n (regex_exec COMMONMARK_PATTERN 6)
                     (commonmarkStep (execute n S H) S H parentFolder parentFile processed)
                     parentContent
              else Some (Inr parentContent)) of
          Some (Inr content1) \<Rightarrow>
            if orDefaultBool (markdownItRegex S) DEFAULT_MARKDOWN_IT_REGEX
            then directiveLoop n (regex_exec MARKDOWN_IT_PATTERN 4)
                   (markdownItStep (execute n S H) S H parentFolder parentFile processed)
                   content1
            else Some (Inr content1)
        | other \<Rightarrow> other)"

section \<open>The chain of a run\<close>




section \<open>A host for the examples\<close>

text \<open>
  The examples run on a small host: the files are those of a table, an absolute name
  resolves to itself and any other name to the folder, a slash and the name; the folder
  of a path is what precedes its last slash, its base name what follows it.
  \<open>emptySettings\<close> is the \<open>{ }\<close> that \<open>Include\<close> takes when it is given no settings.
\<close>

definition demoHost :: "(string \<times> string) list \<Rightarrow> host" where
  "demoHost files =
     \<lparr>resolve = (\<lambda>folder name. if take 1 name = ''/'' then name else folder @ ''/'' @ name),
      dirname = (\<lambda>p. rev (drop 1 (dropWhile (\<lambda>c. c \<noteq> CHR ''/'') (rev p)))),
      basename = (\<lambda>p. rev (takeWhile (\<lambda>c. c \<noteq> CHR ''/'') (rev p))),
      existsSync = (\<lambda>p. map_of files p \<noteq> None),
      readFileSync = map_of files\<rparr>"

definition emptySettings :: settings where
  "emptySettings =
     \<lparr>commonmarkRegex = None, markdownItRegex = None, notFoundMessage = None,
      circularMessage = None, quoteFormatting = None, quoteIncludeSource = None,
      quoteSourceLabel = None\<rparr>"

text \<open>
  Two words of the specification, for stating where a placeholder occurs in a template:
  the pattern occurs at an index of a text, and that index is the first such.
\<close>

definition occurs_at :: "string \<Rightarrow> string \<Rightarrow> nat \<Rightarrow> bool" where
  "occurs_at pat s i \<longleftrightarrow> take (length pat) (drop i s) = pat"

definition first_occurrence :: "string \<Rightarrow> string \<Rightarrow> nat \<Rightarrow> bool" where
  "first_occurrence pat s i \<longleftrightarrow> occurs_at pat s i \<and> (\<forall>j<i. \<not> occurs_at pat s j)"

section \<open>Facts about the string and array primitives\<close>

lemma js_split_char_absent: "d \<notin> set s \<Longrightarrow> js_split_char d s = [s]"
  by (induction s) auto

lemma js_slice_nonneg:
  "0 \<le> i \<Longrightarrow> 0 \<le> j \<Longrightarrow> js_slice xs (Some i) (Some j) = drop (nat i) (take (nat j) xs)"
  by (auto simp: js_slice_def relativeIndex_def drop_take min_def Let_def)

lemma drop_take_single:
  "0 < k \<Longrightarrow> k \<le> length xs \<Longrightarrow> drop (k - 1) (take k xs) = [xs ! (k - 1)]"
proof -
  assume "0 < k" and le: "k \<le> length xs"
  then obtain j where k: "k = Suc j" by (cases k) auto
  with le have "j < length xs" by simp
  then have "take (Suc j) xs = take j xs @ [xs ! j]" by (rule take_Suc_conv_app_nth)
  then show ?thesis using k \<open>j < length xs\<close> by simp
qed

lemma selected_single_line:
  assumes "1 \<le> s" and "nat s \<le> length xs"
  shows "js_slice xs (Some (s - 1)) (Some s) = [xs ! (nat s - 1)]"
proof -
  have "js_slice xs (Some (s - 1)) (Some s) = drop (nat (s - 1)) (take (nat s) xs)"
    using assms(1) by (simp add: js_slice_nonneg)
  also have "nat (s - 1) = nat s - 1" using assms(1) by (simp add: nat_diff_distrib)
  also have "drop (nat s - 1) (take (nat s) xs) = [xs ! (nat s - 1)]"
    using assms by (intro drop_take_single) auto
  finally show ?thesis .
qed

section \<open>Range selection by lines\<close>

text \<open>
  Claim C1, as the code has it. With a start spec for line \<open>s\<close> (\<open>s \<ge> 1\<close>) and an end spec
  for line \<open>m\<close>, neither with a word part, \<open>sliceLines\<close> takes the lines with 0-based index
  in \<open>[s - 1, m)\<close>: the end line number is the exclusive bound of the 0-based slice, which
  makes it the last selected line in the 1-based numbering of the specs. The selection is
  the lines \<open>s\<close> to \<open>m\<close>, both included.
\<close>

theorem sliceLines_line_range:
  assumes "startSpec \<noteq> []" and "endSpec \<noteq> []"
    and "CHR ''.'' \<notin> set startSpec" and "CHR ''.'' \<notin> set endSpec"
    and "parseInt startSpec = Some s" and "1 \<le> s"
    and "parseInt endSpec = Some m" and "0 \<le> m"
  shows "sliceLines content (Some startSpec) (Some endSpec)
         = js_join [CHR 0x0A] (drop (nat s - 1) (take (nat m) (js_split_lines content)))"
proof -
  have sel: "js_slice (js_split_lines content) (Some (s - 1)) (Some m)
             = drop (nat s - 1) (take (nat m) (js_split_lines content))"
    using assms(6,8) by (simp add: js_slice_nonneg nat_diff_distrib)
  show ?thesis
    using assms sel
    by (simp add: sliceLines_def js_split_char_absent num_pred_def num_less_def Let_def)
qed

text \<open>
  On the three lines of the specification, start \<open>1\<close> and end \<open>3\<close> select all three lines.
\<close>

theorem sliceLines_line_range_witness:
  "sliceLines ''a b c\<newline>d e f\<newline>g h i'' (Some ''1'') (Some ''3'')
   = ''a b c\<newline>d e f\<newline>g h i''"
proof -
  have s: "parseInt ''1'' = Some 1" by code_simp
  have m: "parseInt ''3'' = Some 3" by code_simp
  have d1: "CHR ''.'' \<notin> set ''1''" by simp
  have d3: "CHR ''.'' \<notin> set ''3''" by simp
  have "sliceLines ''a b c\<newline>d e f\<newline>g h i'' (Some ''1'') (Some ''3'')
        = js_join [CHR 0x0A]
            (drop (nat 1 - 1) (take (nat 3) (js_split_lines ''a b c\<newline>d e f\<newline>g h i'')))"
    by (rule sliceLines_line_range [OF _ _ d1 d3 s _ m]) simp_all
  also have "\<dots> = ''a b c\<newline>d e f\<newline>g h i''" by code_simp
  finally show ?thesis .
qed

text \<open>
  Claim C1 as the specification states it fails: it reads the end line as excluded, so
  that start \<open>1\<close> with end \<open>3\<close> would give the first two lines, and an end line equal to
  the start line nothing.
\<close>

theorem sliceLines_exclusive_end_counterexample:
  "sliceLines ''a b c\<newline>d e f\<newline>g h i'' (Some ''1'') (Some ''3'') \<noteq> ''a b c\<newline>d e f''
   \<and> sliceLines ''a b c\<newline>d e f\<newline>g h i'' (Some ''2'') (Some ''2'') = ''d e f''"
  by code_simp

section \<open>Range selection of one line and of words\<close>

lemma sliceLines_whole_line:
  assumes "startSpec \<noteq> []" and "CHR ''.'' \<notin> set startSpec"
    and "parseInt startSpec = Some s" and "1 \<le> s" and "nat s \<le> length (js_split_lines content)"
  shows "sliceLines content (Some startSpec) None = js_split_lines content ! (nat s - 1)"
  using assms selected_single_line [OF assms(4,5)]
  by (simp add: sliceLines_def js_split_char_absent num_pred_def num_succ_def num_less_def Let_def)

lemma sliceLines_from_word:
  assumes "js_split_char (CHR ''.'') startSpec = [a, b]"
    and "parseInt a = Some s" and "1 \<le> s" and "nat s \<le> length (js_split_lines content)"
    and "parseInt b = Some w" and "0 \<le> w"
  shows "sliceLines content (Some startSpec) None
         = (if 0 < w then js_join '' '' (drop (nat w) (js_split_ws (js_split_lines content ! (nat s - 1))))
            else js_split_lines content ! (nat s - 1))"
proof -
  have ne: "startSpec \<noteq> []" using assms(1) by auto
  have "js_slice ws (Some w) (Some (int (length ws))) = drop (nat w) ws" for ws :: "string list"
    using assms(6) by (simp add: js_slice_nonneg)
  then show ?thesis
    using assms ne selected_single_line [OF assms(3,4)]
    by (simp add: sliceLines_def num_pred_def num_succ_def num_less_def Let_def)
qed

lemma sliceLines_word_range:
  assumes "js_split_char (CHR ''.'') startSpec = [a, b]"
    and "js_split_char (CHR ''.'') endSpec = [c, d]"
    and "parseInt a = Some s" and "parseInt c = Some s"
    and "1 \<le> s" and "nat s \<le> length (js_split_lines content)"
    and "parseInt b = Some w1" and "0 \<le> w1" and "parseInt d = Some w2" and "0 \<le> w2"
  shows "sliceLines content (Some startSpec) (Some endSpec)
         = js_join '' '' (drop (nat w1) (take (nat w2)
             (js_split_ws (js_split_lines content ! (nat s - 1)))))"
proof -
  have ne: "startSpec \<noteq> []" "endSpec \<noteq> []" using assms(1,2) by auto
  show ?thesis
    using assms ne selected_single_line [OF assms(5,6)]
    by (simp add: sliceLines_def num_pred_def num_succ_def num_less_def Let_def js_slice_nonneg)
qed


text \<open>
  What holds for every text, of the pieces that \<open>split(/\s+/)\<close> makes of a line. When the
  start line \<open>s\<close> exists in the text (\<open>1 \<le> s \<le>\<close> the number of lines): with no end spec and
  no word part in the start spec, the result is exactly line \<open>s\<close>; with no end spec and a
  start word \<open>w\<close>, the result is the pieces of line \<open>s\<close> from the 0-based index \<open>w\<close> to the
  last one, joined by single spaces (the whole line, untouched, when \<open>w = 0\<close>); with start
  \<open>s.w\<close> and end \<open>s.w2\<close>, the result is the pieces of line \<open>s\<close> with 0-based index in
  \<open>[w, w2)\<close>.
\<close>

lemma sliceLines_single_line_and_words:
  "(startSpec \<noteq> [] \<and> CHR ''.'' \<notin> set startSpec \<and> parseInt startSpec = Some s
      \<and> 1 \<le> s \<and> nat s \<le> length (js_split_lines content)
    \<longrightarrow> sliceLines content (Some startSpec) None = js_split_lines content ! (nat s - 1))
   \<and> (js_split_char (CHR ''.'') startSpec = [a, b] \<and> parseInt a = Some s
      \<and> 1 \<le> s \<and> nat s \<le> length (js_split_lines content)
      \<and> parseInt b = Some w \<and> 0 \<le> w
    \<longrightarrow> sliceLines content (Some startSpec) None
        = (if 0 < w
           then js_join '' '' (drop (nat w) (js_split_ws (js_split_lines content ! (nat s - 1))))
           else js_split_lines content ! (nat s - 1)))
   \<and> (js_split_char (CHR ''.'') startSpec = [a, b] \<and> js_split_char (CHR ''.'') endSpec = [c, d]
      \<and> parseInt a = Some s \<and> parseInt c = Some s
      \<and> 1 \<le> s \<and> nat s \<le> length (js_split_lines content)
      \<and> parseInt b = Some w \<and> 0 \<le> w \<and> parseInt d = Some w2 \<and> 0 \<le> w2
    \<longrightarrow> sliceLines content (Some startSpec) (Some endSpec)
        = js_join '' '' (drop (nat w) (take (nat w2)
            (js_split_ws (js_split_lines content ! (nat s - 1))))))"
  using sliceLines_whole_line [of startSpec s content]
    sliceLines_from_word [of startSpec a b s content w]
    sliceLines_word_range [of startSpec a b endSpec c d s content w w2]
  by blast

text \<open>
  The two examples of the specification: start \<open>2\<close> with no end gives \<open>d e f\<close>, and start
  \<open>1.1\<close> with end \<open>1.2\<close> gives \<open>b\<close>.
\<close>

lemma sliceLines_spec_examples:
  "sliceLines ''a b c\<newline>d e f\<newline>g h i'' (Some ''2'') None = ''d e f''
   \<and> sliceLines ''a b c\<newline>d e f\<newline>g h i'' (Some ''1.1'') (Some ''1.2'') = ''b''"
proof -
  let ?T = "''a b c\<newline>d e f\<newline>g h i''"
  have p1: "parseInt ''1'' = Some 1" by code_simp
  have p2: "parseInt ''2'' = Some 2" by code_simp
  have len: "length (js_split_lines ?T) = 3" by code_simp
  have s11: "js_split_char (CHR ''.'') ''1.1'' = [''1'', ''1'']" by code_simp
  have s12: "js_split_char (CHR ''.'') ''1.2'' = [''1'', ''2'']" by code_simp
  have h1: "''2'' \<noteq> [] \<and> CHR ''.'' \<notin> set ''2'' \<and> parseInt ''2'' = Some 2
      \<and> (1::int) \<le> 2 \<and> nat 2 \<le> length (js_split_lines ?T)"
    by code_simp
  have "sliceLines ?T (Some ''2'') None = js_split_lines ?T ! (nat 2 - 1)"
    by (rule sliceLines_single_line_and_words
               [where startSpec = "''2''" and s = 2 and content = ?T,
                THEN conjunct1, THEN mp, OF h1])
  also have "\<dots> = ''d e f''" by code_simp
  finally have first: "sliceLines ?T (Some ''2'') None = ''d e f''" .
  have h2: "js_split_char (CHR ''.'') ''1.1'' = [''1'', ''1'']
      \<and> js_split_char (CHR ''.'') ''1.2'' = [''1'', ''2'']
      \<and> parseInt ''1'' = Some 1 \<and> parseInt ''1'' = Some 1
      \<and> (1::int) \<le> 1 \<and> nat 1 \<le> length (js_split_lines ?T)
      \<and> parseInt ''1'' = Some 1 \<and> (0::int) \<le> 1 \<and> parseInt ''2'' = Some 2 \<and> (0::int) \<le> 2"
    by code_simp
  have "sliceLines ?T (Some ''1.1'') (Some ''1.2'')
        = js_join '' '' (drop (nat 1) (take (nat 2) (js_split_ws (js_split_lines ?T ! (nat 1 - 1)))))"
    by (rule sliceLines_single_line_and_words
            [where startSpec = "''1.1''" and endSpec = "''1.2''" and content = ?T and s = 1
               and a = "''1''" and b = "''1''" and c = "''1''" and d = "''2''"
               and w = 1 and ?w2.0 = 2,
             THEN conjunct2, THEN conjunct2, THEN mp, OF h2])
  also have "\<dots> = ''b''" by code_simp
  finally have second: "sliceLines ?T (Some ''1.1'') (Some ''1.2'') = ''b''" .
  from first second show ?thesis by (rule conjI)
qed

text \<open>
  Claim C5 says that word indices are 0-based over the words of the line, its maximal
  runs of characters that are not white space, as the comment of lines 35 to 40 has it
  (\<open>5.2\<close> is line 5 starting from word 2). The indices are applied to the pieces of
  \<open>split(/\s+/)\<close>, and the first piece of a line that starts with white space is empty.
  On the line \<open>x y\<close> indented by two spaces, the start \<open>1.1\<close> with the end \<open>1.2\<close> selects
  \<open>x\<close>, the word of index 0, and the start \<open>1.0\<close> with the end \<open>1.1\<close> selects nothing; on
  the line \<open>x y\<close> itself, the start \<open>1.1\<close> with the end \<open>1.2\<close> selects \<open>y\<close>. A directive with
  \<open>#L1.1-1.2\<close> on the indented file is replaced by \<open>x\<close>.
\<close>

theorem sliceLines_indented_line_failing_input:
  "js_split_ws ''  x y'' = ['''', ''x'', ''y'']
   \<and> sliceLines ''  x y'' (Some ''1.1'') (Some ''1.2'') = ''x''
   \<and> sliceLines ''  x y'' (Some ''1.0'') (Some ''1.1'') = ''''
   \<and> sliceLines ''x y'' (Some ''1.1'') (Some ''1.2'') = ''y''
   \<and> execute 4 emptySettings
       (demoHost [(''/r/doc.md'', '':(f.md#L1.1-1.2)''), (''/r/f.md'', ''  x y'')])
       '':(f.md#L1.1-1.2)'' ''/r/doc.md'' None
     = Some (Inr ''x'')"
  by code_simp


section \<open>The three branches of replace\<close>

lemma replace_not_found:
  "\<not> existsSync H (resolve H folder name) \<Longrightarrow>
   replace ex S H m pc folder pfile name nf cm ps sl el q
   = Some (Inr (spliceMatch m pc (js_replace nf ''{{FILE}}'' (resolve H folder name))))"
  by (simp add: replace_def)

lemma replace_circular:
  "existsSync H (resolve H folder name) \<Longrightarrow> resolve H folder name \<in> set ps \<Longrightarrow>
   replace ex S H m pc folder pfile name nf cm ps sl el q
   = Some (Inr (spliceMatch m pc
       (js_replace (js_replace cm ''{{FILE}}'' (resolve H folder name)) ''{{PARENT}}'' pfile)))"
  by (simp add: replace_def)

lemma replace_unreadable:
  "existsSync H (resolve H folder name) \<Longrightarrow> resolve H folder name \<notin> set ps \<Longrightarrow>
   readFileSync H (resolve H folder name) = None \<Longrightarrow>
   replace ex S H m pc folder pfile name nf cm ps sl el q = Some (Inl ReadError)"
  by (simp add: replace_def)

lemma replace_fresh:
  "existsSync H (resolve H folder name) \<Longrightarrow> resolve H folder name \<notin> set ps \<Longrightarrow>
   readFileSync H (resolve H folder name) = Some orig \<Longrightarrow>
   ex (sliceLines orig sl el) (resolve H folder name) (Some ps) = Some (Inr e) \<Longrightarrow>
   replace ex S H m pc folder pfile name nf cm ps sl el q
   = Some (Inr (spliceMatch m pc
       (if shouldQuote S q
        then formatQuote H e (resolve H folder name)
               (orDefaultString (quoteSourceLabel S) DEFAULT_QUOTE_SOURCE_LABEL)
               (orDefaultBool (quoteIncludeSource S) DEFAULT_QUOTE_INCLUDE_SOURCE)
               sl (Some orig)
        else e)))"
  by (simp add: replace_def Let_def)

lemma replace_fresh_failed:
  "existsSync H (resolve H folder name) \<Longrightarrow> resolve H folder name \<notin> set ps \<Longrightarrow>
   readFileSync H (resolve H folder name) = Some orig \<Longrightarrow>
   ex (sliceLines orig sl el) (resolve H folder name) (Some ps) = r \<Longrightarrow>
   (\<forall>e. r \<noteq> Some (Inr e)) \<Longrightarrow>
   replace ex S H m pc folder pfile name nf cm ps sl el q = r"
  by (auto simp: replace_def split: option.splits sum.splits)


section \<open>More fuel gives the same result\<close>

text \<open>
  A run that has returned (or thrown) within some fuel gives the same result with any
  larger fuel: the result of a run does not depend on the fuel that was enough for it.
\<close>

lemma directiveLoop_mono:
  assumes "\<And>m c r. body m c = Some r \<Longrightarrow> body' m c = Some r"
  shows "directiveLoop n ex body c = Some r \<Longrightarrow> directiveLoop (Suc n) ex body' c = Some r"
proof (induction n arbitrary: c)
  case 0
  then show ?case by simp
next
  case (Suc n)
  show ?case
  proof (cases "ex c")
    case None
    with Suc.prems show ?thesis by simp
  next
    case (Some m)
    show ?thesis
    proof (cases "body m c")
      case None
      with Some Suc.prems show ?thesis by simp
    next
      case (Some x)
      note b = this
      then have b': "body' m c = Some x" by (rule assms)
      show ?thesis
      proof (cases x)
        case (Inl e)
        with b b' \<open>ex c = Some m\<close> Suc.prems show ?thesis by auto
      next
        case (Inr c')
        with b \<open>ex c = Some m\<close> Suc.prems have "directiveLoop n ex body c' = Some r" by simp
        then have "directiveLoop (Suc n) ex body' c' = Some r" by (rule Suc.IH)
        with Inr b' \<open>ex c = Some m\<close> show ?thesis by simp
      qed
    qed
  qed
qed

lemma replace_mono:
  assumes mono: "\<And>c f p r. ex c f p = Some r \<Longrightarrow> ex' c f p = Some r"
    and run: "replace ex S H m pc folder pfile name nf cm ps sl el q = Some r"
  shows "replace ex' S H m pc folder pfile name nf cm ps sl el q = Some r"
proof -
  let ?child = "resolve H folder name"
  consider (missing) "\<not> existsSync H ?child"
    | (circular) "existsSync H ?child" "?child \<in> set ps"
    | (unreadable) "existsSync H ?child" "?child \<notin> set ps" "readFileSync H ?child = None"
    | (fresh) orig where "existsSync H ?child" "?child \<notin> set ps"
        "readFileSync H ?child = Some orig"
    by (cases "readFileSync H ?child") auto
  then show ?thesis
  proof cases
    case missing
    then show ?thesis using run by (simp add: replace_not_found)
  next
    case circular
    then show ?thesis using run by (simp add: replace_circular)
  next
    case unreadable
    then show ?thesis using run by (simp add: replace_unreadable)
  next
    case fresh
    show ?thesis
    proof (cases "ex (sliceLines orig sl el) ?child (Some ps)")
      case None
      then have "replace ex S H m pc folder pfile name nf cm ps sl el q = None"
        using fresh by (intro replace_fresh_failed) auto
      with run show ?thesis by simp
    next
      case (Some x)
      then have x': "ex' (sliceLines orig sl el) ?child (Some ps) = Some x" by (rule mono)
      show ?thesis
      proof (cases x)
        case (Inl e)
        have "replace ex S H m pc folder pfile name nf cm ps sl el q = Some (Inl e)"
          using fresh Some Inl by (intro replace_fresh_failed) auto
        moreover have "replace ex' S H m pc folder pfile name nf cm ps sl el q = Some (Inl e)"
          using fresh x' Inl by (intro replace_fresh_failed) auto
        ultimately show ?thesis using run by simp
      next
        case (Inr e)
        then show ?thesis
          using fresh Some x' run by (simp add: replace_fresh)
      qed
    qed
  qed
qed

lemma execute_fuel_Suc:
  "execute n S H c f pf = Some r \<Longrightarrow> execute (Suc n) S H c f pf = Some r"
proof (induction n arbitrary: c f pf r)
  case 0
  then show ?case by simp
next
  case (Suc n)
  define P where "P = (case pf of None \<Rightarrow> [] | Some ps \<Rightarrow> ps) @ [f]"
  define L1 where "L1 k =
      (if orDefaultBool (commonmarkRegex S) DEFAULT_COMMONMARK_REGEX
       then directiveLoop k (regex_exec COMMONMARK_PATTERN 6)
              (commonmarkStep (execute k S H) S H (dirname H f) f P) c
       else Some (Inr c))" for k
  define L2 where "L2 k c1 =
      (if orDefaultBool (markdownItRegex S) DEFAULT_MARKDOWN_IT_REGEX
       then directiveLoop k (regex_exec MARKDOWN_IT_PATTERN 4)
              (markdownItStep (execute k S H) S H (dirname H f) f P) c1
       else Some (Inr c1))" for k c1
  have ex: "execute (Suc k) S H c f pf
            = (case L1 k of Some (Inr c1) \<Rightarrow> L2 k c1 | other \<Rightarrow> other)" for k
    unfolding L1_def L2_def P_def by (simp add: Let_def)
  have cm: "commonmarkStep (execute (Suc n) S H) S H folder f P m c' = Some x"
    if "commonmarkStep (execute n S H) S H folder f P m c' = Some x" for folder m c' x
  proof (cases "capture m 3")
    case None
    with that show ?thesis by (simp add: commonmarkStep_def)
  next
    case (Some name)
    with that show ?thesis
      unfolding commonmarkStep_def by (simp add: replace_mono [OF Suc.IH])
  qed
  have mi: "markdownItStep (execute (Suc n) S H) S H folder f P m c' = Some x"
    if "markdownItStep (execute n S H) S H folder f P m c' = Some x" for folder m c' x
  proof (cases "capture m 1")
    case None
    with that show ?thesis by (simp add: markdownItStep_def)
  next
    case (Some name)
    with that show ?thesis
      unfolding markdownItStep_def by (simp add: replace_mono [OF Suc.IH])
  qed
  have m1: "L1 (Suc n) = Some x" if "L1 n = Some x" for x
  proof (cases "orDefaultBool (commonmarkRegex S) DEFAULT_COMMONMARK_REGEX")
    case True
    with that have "directiveLoop n (regex_exec COMMONMARK_PATTERN 6)
              (commonmarkStep (execute n S H) S H (dirname H f) f P) c = Some x"
      by (simp add: L1_def)
    then have "directiveLoop (Suc n) (regex_exec COMMONMARK_PATTERN 6)
              (commonmarkStep (execute (Suc n) S H) S H (dirname H f) f P) c = Some x"
      by (rule directiveLoop_mono [rotated]) (rule cm)
    with True show ?thesis by (simp add: L1_def del: directiveLoop.simps)
  next
    case False
    with that show ?thesis by (simp add: L1_def)
  qed
  have m2: "L2 (Suc n) c1 = Some x" if "L2 n c1 = Some x" for x c1
  proof (cases "orDefaultBool (markdownItRegex S) DEFAULT_MARKDOWN_IT_REGEX")
    case True
    with that have "directiveLoop n (regex_exec MARKDOWN_IT_PATTERN 4)
              (markdownItStep (execute n S H) S H (dirname H f) f P) c1 = Some x"
      by (simp add: L2_def)
    then have "directiveLoop (Suc n) (regex_exec MARKDOWN_IT_PATTERN 4)
              (markdownItStep (execute (Suc n) S H) S H (dirname H f) f P) c1 = Some x"
      by (rule directiveLoop_mono [rotated]) (rule mi)
    with True show ?thesis by (simp add: L2_def del: directiveLoop.simps)
  next
    case False
    with that show ?thesis by (simp add: L2_def)
  qed
  from Suc.prems have run: "(case L1 n of Some (Inr c1) \<Rightarrow> L2 n c1 | other \<Rightarrow> other) = Some r"
    by (simp only: ex)
  show ?case
  proof (cases "L1 n")
    case None
    with run show ?thesis by simp
  next
    case (Some x)
    then have s1: "L1 (Suc n) = Some x" by (rule m1)
    show ?thesis
    proof (cases x)
      case (Inl e)
      with Some s1 run show ?thesis unfolding ex by auto
    next
      case (Inr c1)
      with Some run have "L2 n c1 = Some r" by simp
      then have "L2 (Suc n) c1 = Some r" by (rule m2)
      with Inr s1 show ?thesis unfolding ex by simp
    qed
  qed
qed

lemma execute_fuel_mono:
  "execute n S H c f pf = Some r \<Longrightarrow> n \<le> k \<Longrightarrow> execute k S H c f pf = Some r"
proof (induction k)
  case 0
  then show ?case by simp
next
  case (Suc k)
  show ?case
  proof (cases "n = Suc k")
    case True
    with Suc.prems show ?thesis by simp
  next
    case False
    with Suc.prems have "n \<le> k" by simp
    with Suc have "execute k S H c f pf = Some r" by simp
    then show ?thesis by (rule execute_fuel_Suc)
  qed
qed

section \<open>Quote mode\<close>









section \<open>Messages are spliced in as they are\<close>

text \<open>
  Claim C10. What \<open>replace\<close> splices in for a target that does not exist, or that is in
  the Processed-Set, is the message itself: the result mentions neither the settings nor
  the modifier of the directive, so no quotation and no citation is applied, whatever
  \<open>quoteFormatting\<close> and the modifier are. \<open>formatQuote\<close> is applied in the third branch
  only, to the content that was read and expanded. (This is about the directive that gets
  the message: a message inside a child is part of the expanded content of that child,
  and is quoted with it when the directive of the child is quoted.)
\<close>

theorem messages_never_quoted:
  "(\<not> existsSync H (resolve H folder name)
    \<longrightarrow> replace ex S H m pc folder pfile name nf cm ps sl el q
        = Some (Inr (spliceMatch m pc (js_replace nf ''{{FILE}}'' (resolve H folder name)))))
   \<and> (existsSync H (resolve H folder name) \<and> resolve H folder name \<in> set ps
    \<longrightarrow> replace ex S H m pc folder pfile name nf cm ps sl el q
        = Some (Inr (spliceMatch m pc
            (js_replace (js_replace cm ''{{FILE}}'' (resolve H folder name)) ''{{PARENT}}'' pfile))))
   \<and> (existsSync H (resolve H folder name) \<and> resolve H folder name \<notin> set ps
      \<and> readFileSync H (resolve H folder name) = Some orig
      \<and> ex (sliceLines orig sl el) (resolve H folder name) (Some ps) = Some (Inr e)
    \<longrightarrow> replace ex S H m pc folder pfile name nf cm ps sl el q
        = Some (Inr (spliceMatch m pc
            (if shouldQuote S q
             then formatQuote H e (resolve H folder name)
                    (orDefaultString (quoteSourceLabel S) DEFAULT_QUOTE_SOURCE_LABEL)
                    (orDefaultBool (quoteIncludeSource S) DEFAULT_QUOTE_INCLUDE_SOURCE)
                    sl (Some orig)
             else e))))"
  using replace_not_found [of H folder name ex S m pc pfile nf cm ps sl el q]
    replace_circular [of H folder name ps ex S m pc pfile nf cm sl el q]
    replace_fresh [of H folder name ps orig ex sl el e S m pc pfile nf cm q]
  by blast

text \<open>
  With \<open>quoteFormatting\<close> set to true and the modifier \<open>{quote}\<close>, a missing target and a
  target that is the document itself are both replaced by the bare message.
\<close>

theorem messages_never_quoted_witness:
  "replace (execute 2 (emptySettings\<lparr>quoteFormatting := Some True\<rparr>) (demoHost [(''/r/root.md'', ''x'')]))
     (emptySettings\<lparr>quoteFormatting := Some True\<rparr>) (demoHost [(''/r/root.md'', ''x'')])
     \<lparr>match_index = 2, match_text = '':(nope.md){quote}'',
        match_groups = [None, None, None, Some ''nope.md'', None, None, Some ''quote'']\<rparr>
     ''x :(nope.md){quote}'' ''/r'' ''/r/root.md'' ''nope.md''
     ''No {{FILE}}'' ''Loop {{FILE}} {{PARENT}}'' [''/r/root.md'']
     None None (Some ''quote'')
   = Some (Inr ''x No /r/nope.md'')
   \<and> replace (execute 2 (emptySettings\<lparr>quoteFormatting := Some True\<rparr>) (demoHost [(''/r/root.md'', ''x'')]))
     (emptySettings\<lparr>quoteFormatting := Some True\<rparr>) (demoHost [(''/r/root.md'', ''x'')])
     \<lparr>match_index = 2, match_text = '':(root.md){quote}'',
        match_groups = [None, None, None, Some ''root.md'', None, None, Some ''quote'']\<rparr>
     ''x :(root.md){quote}'' ''/r'' ''/r/root.md'' ''root.md''
     ''No {{FILE}}'' ''Loop {{FILE}} {{PARENT}}'' [''/r/root.md'']
     None None (Some ''quote'')
   = Some (Inr ''x Loop /r/root.md /r/root.md'')"
proof -
  let ?S = "emptySettings\<lparr>quoteFormatting := Some True\<rparr>"
  let ?H = "demoHost [(''/r/root.md'', ''x'')]"
  let ?m = "\<lparr>match_index = 2, match_text = '':(nope.md){quote}'',
        match_groups = [None, None, None, Some ''nope.md'', None, None, Some ''quote'']\<rparr>"
  let ?m' = "\<lparr>match_index = 2, match_text = '':(root.md){quote}'',
        match_groups = [None, None, None, Some ''root.md'', None, None, Some ''quote'']\<rparr>"
  have h: "\<not> existsSync ?H (resolve ?H ''/r'' ''nope.md'')" by code_simp
  have "replace (execute 2 ?S ?H) ?S ?H ?m ''x :(nope.md){quote}'' ''/r'' ''/r/root.md'' ''nope.md''
          ''No {{FILE}}'' ''Loop {{FILE}} {{PARENT}}'' [''/r/root.md''] None None (Some ''quote'')
        = Some (Inr (spliceMatch ?m ''x :(nope.md){quote}''
                       (js_replace ''No {{FILE}}'' ''{{FILE}}'' (resolve ?H ''/r'' ''nope.md''))))"
    by (rule messages_never_quoted [THEN conjunct1, THEN mp, OF h])
  also have "\<dots> = Some (Inr ''x No /r/nope.md'')" by code_simp
  finally have first: "replace (execute 2 ?S ?H) ?S ?H ?m ''x :(nope.md){quote}'' ''/r'' ''/r/root.md''
          ''nope.md'' ''No {{FILE}}'' ''Loop {{FILE}} {{PARENT}}'' [''/r/root.md''] None None
          (Some ''quote'') = Some (Inr ''x No /r/nope.md'')" .
  have h': "existsSync ?H (resolve ?H ''/r'' ''root.md'')
            \<and> resolve ?H ''/r'' ''root.md'' \<in> set [''/r/root.md'']" by code_simp
  have "replace (execute 2 ?S ?H) ?S ?H ?m' ''x :(root.md){quote}'' ''/r'' ''/r/root.md'' ''root.md''
          ''No {{FILE}}'' ''Loop {{FILE}} {{PARENT}}'' [''/r/root.md''] None None (Some ''quote'')
        = Some (Inr (spliceMatch ?m' ''x :(root.md){quote}''
             (js_replace (js_replace ''Loop {{FILE}} {{PARENT}}'' ''{{FILE}}''
                            (resolve ?H ''/r'' ''root.md'')) ''{{PARENT}}'' ''/r/root.md'')))"
    by (rule messages_never_quoted [THEN conjunct2, THEN conjunct1, THEN mp, OF h'])
  also have "\<dots> = Some (Inr ''x Loop /r/root.md /r/root.md'')" by code_simp
  finally have second: "replace (execute 2 ?S ?H) ?S ?H ?m' ''x :(root.md){quote}'' ''/r''
          ''/r/root.md'' ''root.md'' ''No {{FILE}}'' ''Loop {{FILE}} {{PARENT}}'' [''/r/root.md'']
          None None (Some ''quote'') = Some (Inr ''x Loop /r/root.md /r/root.md'')" .
  from first second show ?thesis by (rule conjI)
qed


section \<open>The column of the citation\<close>

lemma columnLoop_sum:
  "columnLoop (Some W) i ws c
   = c + (\<Sum>j<min (nat (W - int i)) (length ws).
            length (ws ! j) + (if int (i + j) < W - 1 \<or> ws ! j \<noteq> [] then 1 else 0))"
proof (induction ws arbitrary: i c)
  case Nil
  then show ?case by simp
next
  case (Cons w ws)
  show ?case
  proof (cases "int i < W")
    case True
    let ?k = "min (nat (W - int (Suc i))) (length ws)"
    have k: "min (nat (W - int i)) (length (w # ws)) = Suc ?k"
      using True by (simp add: Suc_nat_eq_nat_zadd1 algebra_simps)
    have "columnLoop (Some W) i (w # ws) c
          = columnLoop (Some W) (Suc i) ws
              (c + length w + (if int i < W - 1 \<or> w \<noteq> [] then 1 else 0))"
      using True by (simp add: num_less_def num_pred_def)
    also have "\<dots> = (c + length w + (if int i < W - 1 \<or> w \<noteq> [] then 1 else 0))
          + (\<Sum>j<?k. length (ws ! j)
                       + (if int (Suc i + j) < W - 1 \<or> ws ! j \<noteq> [] then 1 else 0))"
      by (rule Cons.IH)
    also have "\<dots> = c + (\<Sum>j<Suc ?k. length ((w # ws) ! j)
                       + (if int (i + j) < W - 1 \<or> (w # ws) ! j \<noteq> [] then 1 else 0))"
      by (simp add: sum.lessThan_Suc_shift del: sum.lessThan_Suc)
    finally show ?thesis using k by simp
  next
    case False
    then have "nat (W - int i) = 0" by simp
    with False show ?thesis by (simp add: num_less_def)
  qed
qed

lemma formatQuote_citation:
  "formatQuote H content path label True sl oc
   = quoteLines content @ [CHR 0x0A] @ ''> '' @ [CHR 0x0A] @ ''> '' @ ''*'' @ label @ '': [''
     @ basename H path @ ''](<'' @ ''vscode://file/''
     @ map (\<lambda>c. if c = CHR 0x5C then CHR ''/'' else c) path
     @ '':'' @ fst (citationPosition sl oc) @ '':'' @ snd (citationPosition sl oc) @ ''>)*''"
  by (simp add: formatQuote_def Let_def split: prod.splits)

lemma citationPosition_no_word:
  "startText \<noteq> [] \<Longrightarrow> CHR ''.'' \<notin> set startText \<Longrightarrow>
   citationPosition (Some startText) oc = (startText, ''1'')"
  by (simp add: citationPosition_def js_split_char_absent Let_def split: option.splits)

lemma citationPosition_word:
  assumes "js_split_char (CHR ''.'') startText = [a, b]"
    and "parseInt a = Some n" and "1 \<le> n" and "nat n \<le> length (js_split_lines original)"
    and "original \<noteq> []" and "parseInt b = Some W"
  shows "citationPosition (Some startText) (Some original)
         = (a, numberToString (columnLoop (Some W) 0
                (js_split_ws (js_split_lines original ! (nat n - 1))) 1))"
proof -
  have ne: "startText \<noteq> []" using assms(1) by auto
  have "nat (n - 1) = nat n - 1" using assms(3) by (simp add: nat_diff_distrib)
  moreover have "n - 1 < int (length (js_split_lines original))" using assms(3,4) by linarith
  ultimately show ?thesis
    using assms ne by (simp add: citationPosition_def num_pred_def Let_def)
qed


lemma js_split_ws_word: "\<forall>c\<in>set w. \<not> isWhiteSpace c \<Longrightarrow> js_split_ws w = [w]"
  by (induction w) auto

lemma js_split_ws_word_space:
  "\<forall>c\<in>set x. \<not> isWhiteSpace c \<Longrightarrow> rest \<noteq> [] \<Longrightarrow> \<not> isWhiteSpace (hd rest) \<Longrightarrow>
   js_split_ws (x @ CHR '' '' # rest) = x # js_split_ws rest"
  by (induction x) (auto simp: isWhiteSpace_def)

lemma js_join_Cons: "ys \<noteq> [] \<Longrightarrow> js_join sep (x # ys) = x @ sep @ js_join sep ys"
  by (cases ys) auto

lemma hd_js_join: "x \<noteq> [] \<Longrightarrow> hd (js_join sep (x # ys)) = hd x"
  by (cases ys) auto

lemma js_join_nonempty: "x \<noteq> [] \<Longrightarrow> js_join sep (x # ys) \<noteq> []"
  by (cases ys) auto

lemma js_split_ws_join:
  "ws \<noteq> [] \<Longrightarrow> \<forall>w\<in>set ws. w \<noteq> [] \<and> (\<forall>c\<in>set w. \<not> isWhiteSpace c) \<Longrightarrow>
   js_split_ws (js_join '' '' ws) = ws"
proof (induction ws)
  case Nil
  then show ?case by simp
next
  case (Cons x ws)
  show ?case
  proof (cases ws)
    case Nil
    with Cons.prems show ?thesis by (simp add: js_split_ws_word)
  next
    case (Cons y ys)
    then have ne: "ws \<noteq> []" by simp
    have y: "y \<noteq> []" "\<not> isWhiteSpace (hd y)"
      using Cons.prems Cons by auto
    have "js_split_ws (js_join '' '' (x # ws)) = js_split_ws (x @ CHR '' '' # js_join '' '' ws)"
      using ne by (simp add: js_join_Cons)
    also have "\<dots> = x # js_split_ws (js_join '' '' ws)"
      using Cons.prems y Cons
      by (intro js_split_ws_word_space) (auto simp: hd_js_join js_join_nonempty)
    also have "js_split_ws (js_join '' '' ws) = ws"
      using Cons.IH ne Cons.prems by simp
    finally show ?thesis .
  qed
qed

lemma drop_js_join:
  "W < length ws \<Longrightarrow>
   drop (\<Sum>j<W. length (ws ! j) + 1) (js_join '' '' ws) = js_join '' '' (drop W ws)"
proof (induction ws arbitrary: W)
  case Nil
  then show ?case by simp
next
  case (Cons x ws)
  show ?case
  proof (cases W)
    case 0
    then show ?thesis by simp
  next
    case (Suc V)
    with Cons.prems have V: "V < length ws" by simp
    then have ne: "ws \<noteq> []" by auto
    have "(\<Sum>j<W. length ((x # ws) ! j) + 1) = (length x + 1) + (\<Sum>j<V. length (ws ! j) + 1)"
      using Suc by (simp add: sum.lessThan_Suc_shift del: sum.lessThan_Suc)
    then have "drop (\<Sum>j<W. length ((x # ws) ! j) + 1) (js_join '' '' (x # ws))
               = drop (\<Sum>j<V. length (ws ! j) + 1) (js_join '' '' ws)"
      using ne by (simp add: js_join_Cons)
    also have "\<dots> = js_join '' '' (drop V ws)" using V by (rule Cons.IH)
    finally show ?thesis using Suc by simp
  qed
qed


text \<open>
  What the loop of lines 123 to 130 computes. The citation ends with the line and the
  column of \<open>citationPosition\<close>. The column is \<open>1\<close> when there is no start spec or when the
  start spec has no word part. With a start spec \<open>n.W\<close> whose line \<open>n\<close> exists in the
  original, un-sliced file, the column is 1 plus, for every piece of that line with index
  below \<open>W\<close>, the length of the piece and one more for the space after it; the one for the
  space is left out for the piece of index \<open>W - 1\<close>, the last one walked over, when that
  piece is empty (which is the empty first piece of a line that starts with white space).
  When the line is made of non-empty words separated by single spaces and has a word of
  index \<open>W\<close>, the column is the 1-based offset where that word begins: the line from that
  column on is the words from index \<open>W\<close> on.
\<close>

lemma citation_column:
  "formatQuote H content path label True sl oc
     = quoteLines content @ [CHR 0x0A] @ ''> '' @ [CHR 0x0A] @ ''> '' @ ''*'' @ label @ '': [''
       @ basename H path @ ''](<'' @ ''vscode://file/''
       @ map (\<lambda>c. if c = CHR 0x5C then CHR ''/'' else c) path
       @ '':'' @ fst (citationPosition sl oc) @ '':'' @ snd (citationPosition sl oc) @ ''>)*''
   \<and> snd (citationPosition None oc) = ''1''
   \<and> (startText \<noteq> [] \<and> CHR ''.'' \<notin> set startText
        \<longrightarrow> snd (citationPosition (Some startText) oc) = ''1'')
   \<and> (js_split_char (CHR ''.'') startText = [a, b] \<and> parseInt a = Some n \<and> 1 \<le> n
        \<and> nat n \<le> length (js_split_lines original) \<and> original \<noteq> [] \<and> parseInt b = Some W
        \<longrightarrow> snd (citationPosition (Some startText) (Some original))
            = numberToString
                (1 + (\<Sum>j<min (nat W) (length (js_split_ws (js_split_lines original ! (nat n - 1)))).
                        length (js_split_ws (js_split_lines original ! (nat n - 1)) ! j)
                        + (if int j < W - 1
                              \<or> js_split_ws (js_split_lines original ! (nat n - 1)) ! j \<noteq> []
                           then 1 else 0))))
   \<and> (js_split_char (CHR ''.'') startText = [a, b] \<and> parseInt a = Some n \<and> 1 \<le> n
        \<and> nat n \<le> length (js_split_lines original) \<and> original \<noteq> [] \<and> parseInt b = Some W
        \<and> js_split_lines original ! (nat n - 1) = js_join '' '' ws
        \<and> (\<forall>w\<in>set ws. w \<noteq> [] \<and> (\<forall>c\<in>set w. \<not> isWhiteSpace c))
        \<and> 0 \<le> W \<and> nat W < length ws
        \<longrightarrow> (\<exists>col. snd (citationPosition (Some startText) (Some original)) = numberToString col
               \<and> 1 \<le> col
               \<and> drop (col - 1) (js_split_lines original ! (nat n - 1))
                   = js_join '' '' (drop (nat W) ws)))"
proof (intro conjI impI)
  show "formatQuote H content path label True sl oc
     = quoteLines content @ [CHR 0x0A] @ ''> '' @ [CHR 0x0A] @ ''> '' @ ''*'' @ label @ '': [''
       @ basename H path @ ''](<'' @ ''vscode://file/''
       @ map (\<lambda>c. if c = CHR 0x5C then CHR ''/'' else c) path
       @ '':'' @ fst (citationPosition sl oc) @ '':'' @ snd (citationPosition sl oc) @ ''>)*''"
    by (rule formatQuote_citation)
next
  show "snd (citationPosition None oc) = ''1''" by (simp add: citationPosition_def)
next
  assume "startText \<noteq> [] \<and> CHR ''.'' \<notin> set startText"
  then show "snd (citationPosition (Some startText) oc) = ''1''"
    by (simp add: citationPosition_no_word)
next
  let ?words = "js_split_ws (js_split_lines original ! (nat n - 1))"
  assume "js_split_char (CHR ''.'') startText = [a, b] \<and> parseInt a = Some n \<and> 1 \<le> n
        \<and> nat n \<le> length (js_split_lines original) \<and> original \<noteq> [] \<and> parseInt b = Some W"
  then have "citationPosition (Some startText) (Some original)
             = (a, numberToString (columnLoop (Some W) 0 ?words 1))"
    by (intro citationPosition_word) auto
  then show "snd (citationPosition (Some startText) (Some original))
            = numberToString
                (1 + (\<Sum>j<min (nat W) (length ?words).
                        length (?words ! j) + (if int j < W - 1 \<or> ?words ! j \<noteq> [] then 1 else 0)))"
    by (simp add: columnLoop_sum)
next
  let ?line = "js_split_lines original ! (nat n - 1)"
  assume a: "js_split_char (CHR ''.'') startText = [a, b] \<and> parseInt a = Some n \<and> 1 \<le> n
        \<and> nat n \<le> length (js_split_lines original) \<and> original \<noteq> [] \<and> parseInt b = Some W
        \<and> ?line = js_join '' '' ws
        \<and> (\<forall>w\<in>set ws. w \<noteq> [] \<and> (\<forall>c\<in>set w. \<not> isWhiteSpace c))
        \<and> 0 \<le> W \<and> nat W < length ws"
  then have ne: "ws \<noteq> []" by auto
  have words: "js_split_ws ?line = ws"
    using a ne by (simp add: js_split_ws_join)
  have "citationPosition (Some startText) (Some original)
        = (a, numberToString (columnLoop (Some W) 0 (js_split_ws ?line) 1))"
    using a by (intro citationPosition_word) auto
  then have "citationPosition (Some startText) (Some original)
        = (a, numberToString (columnLoop (Some W) 0 ws 1))"
    by (simp only: words)
  then have pos: "snd (citationPosition (Some startText) (Some original))
        = numberToString (1 + (\<Sum>j<min (nat W) (length ws).
             length (ws ! j) + (if int j < W - 1 \<or> ws ! j \<noteq> [] then 1 else 0)))"
    by (simp add: columnLoop_sum)
  have "(\<Sum>j<min (nat W) (length ws).
             length (ws ! j) + (if int j < W - 1 \<or> ws ! j \<noteq> [] then 1 else 0))
        = (\<Sum>j<nat W. length (ws ! j) + 1)"
  proof -
    have m: "min (nat W) (length ws) = nat W" using a by simp
    have "\<And>j. j < nat W \<Longrightarrow> ws ! j \<noteq> []" using a by simp
    then show ?thesis unfolding m by (intro sum.cong) auto
  qed
  with pos have col: "snd (citationPosition (Some startText) (Some original))
        = numberToString (1 + (\<Sum>j<nat W. length (ws ! j) + 1))"
    by simp
  have line: "?line = js_join '' '' ws" and W: "nat W < length ws" using a by simp_all
  have "drop (\<Sum>j<nat W. length (ws ! j) + 1) (js_join '' '' ws) = js_join '' '' (drop (nat W) ws)"
    by (rule drop_js_join [OF W])
  then have "drop ((1 + (\<Sum>j<nat W. length (ws ! j) + 1)) - 1) ?line
             = js_join '' '' (drop (nat W) ws)"
    by (simp only: line add_diff_cancel_left')
  with col show "\<exists>col. snd (citationPosition (Some startText) (Some original)) = numberToString col
               \<and> 1 \<le> col \<and> drop (col - 1) ?line = js_join '' '' (drop (nat W) ws)"
    by (intro exI [of _ "1 + (\<Sum>j<nat W. length (ws ! j) + 1)"]) simp
qed

text \<open>
  For the start spec \<open>2.1\<close> on a file whose second line is \<open>d e f\<close>, the column is 3, where
  the word \<open>e\<close> begins.
\<close>

lemma citation_column_examples:
  "snd (citationPosition (Some ''2.1'') (Some ''a b c\<newline>d e f'')) = ''3''
   \<and> (\<exists>col. snd (citationPosition (Some ''2.1'') (Some ''a b c\<newline>d e f'')) = numberToString col
          \<and> 1 \<le> col
          \<and> drop (col - 1) (js_split_lines ''a b c\<newline>d e f'' ! (nat 2 - 1))
              = js_join '' '' (drop (nat 1) [''d'', ''e'', ''f'']))"
proof -
  let ?T = "''a b c\<newline>d e f''"
  have h4: "js_split_char (CHR ''.'') ''2.1'' = [''2'', ''1''] \<and> parseInt ''2'' = Some 2 \<and> (1::int) \<le> 2
        \<and> nat 2 \<le> length (js_split_lines ?T) \<and> ?T \<noteq> [] \<and> parseInt ''1'' = Some 1"
    by code_simp
  have "snd (citationPosition (Some ''2.1'') (Some ?T))
        = numberToString
            (1 + (\<Sum>j<min (nat 1) (length (js_split_ws (js_split_lines ?T ! (nat 2 - 1)))).
                    length (js_split_ws (js_split_lines ?T ! (nat 2 - 1)) ! j)
                    + (if int j < 1 - 1 \<or> js_split_ws (js_split_lines ?T ! (nat 2 - 1)) ! j \<noteq> []
                       then 1 else 0)))"
    by (rule citation_column
               [where startText = "''2.1''" and a = "''2''" and b = "''1''" and n = 2 and W = 1
                  and original = ?T,
                THEN conjunct2, THEN conjunct2, THEN conjunct2, THEN conjunct1, THEN mp, OF h4])
  also have "\<dots> = ''3''" by code_simp
  finally have first: "snd (citationPosition (Some ''2.1'') (Some ?T)) = ''3''" .
  have h5: "js_split_char (CHR ''.'') ''2.1'' = [''2'', ''1''] \<and> parseInt ''2'' = Some 2 \<and> (1::int) \<le> 2
        \<and> nat 2 \<le> length (js_split_lines ?T) \<and> ?T \<noteq> [] \<and> parseInt ''1'' = Some 1
        \<and> js_split_lines ?T ! (nat 2 - 1) = js_join '' '' [''d'', ''e'', ''f'']
        \<and> (\<forall>w\<in>set [''d'', ''e'', ''f'']. w \<noteq> [] \<and> (\<forall>c\<in>set w. \<not> isWhiteSpace c))
        \<and> (0::int) \<le> 1 \<and> nat 1 < length [''d'', ''e'', ''f'']"
    by code_simp
  have second: "\<exists>col. snd (citationPosition (Some ''2.1'') (Some ?T)) = numberToString col
          \<and> 1 \<le> col
          \<and> drop (col - 1) (js_split_lines ?T ! (nat 2 - 1))
              = js_join '' '' (drop (nat 1) [''d'', ''e'', ''f''])"
    by (rule citation_column
               [where startText = "''2.1''" and a = "''2''" and b = "''1''" and n = 2 and W = 1
                  and original = ?T and ws = "[''d'', ''e'', ''f'']",
                THEN conjunct2, THEN conjunct2, THEN conjunct2, THEN conjunct2, THEN mp, OF h5])
  from first second show ?thesis by (rule conjI)
qed

text \<open>
  Claim C8 says that the column is the 1-based character offset where word \<open>W\<close> begins,
  and so does the comment of line 122 (\<open>Calculate character position by finding where the
  word starts\<close>). The file \<open>f.md\<close> holds the line \<open>a b\<close> preceded by one space: the directive
  with \<open>#L1.1\<close> and \<open>{quote}\<close> quotes \<open>a b\<close>, which begins at column 2 of the line, and its
  citation says column 1. With the line \<open>a\<close>, two spaces, \<open>b\<close> in the file, the same
  directive quotes \<open>b\<close>, which begins at column 4, and its citation says column 3.
\<close>

theorem citation_column_failing_input:
  "execute 4 emptySettings
     (demoHost [(''/r/doc.md'', '':(f.md#L1.1){quote}''), (''/r/f.md'', '' a b'')])
     '':(f.md#L1.1){quote}'' ''/r/doc.md'' None
   = Some (Inr ''> a b\<newline>> \<newline>> *Source: [f.md](<vscode://file//r/f.md:1:1>)*'')
   \<and> sliceLines '' a b'' (Some ''1.1'') None = ''a b''
   \<and> drop (2 - 1) '' a b'' = ''a b''
   \<and> execute 4 emptySettings
     (demoHost [(''/r/doc.md'', '':(f.md#L1.1){quote}''), (''/r/f.md'', ''a  b'')])
     '':(f.md#L1.1){quote}'' ''/r/doc.md'' None
   = Some (Inr ''> b\<newline>> \<newline>> *Source: [f.md](<vscode://file//r/f.md:1:3>)*'')
   \<and> sliceLines ''a  b'' (Some ''1.1'') None = ''b''
   \<and> drop (4 - 1) ''a  b'' = ''b''"
  by code_simp


section \<open>The Processed-Set is the chain of ancestors\<close>













section \<open>Clean input and the fixed point\<close>

lemma directiveLoop_no_match:
  "ex c = None \<Longrightarrow> directiveLoop (Suc n) ex body c = Some (Inr c)"
  by simp







section \<open>Placeholders of the message templates\<close>

lemma getSubstitution_plain:
  "CHR ''$'' \<notin> set r \<Longrightarrow> getSubstitution matched before after r = r"
  by (induction matched before after r rule: getSubstitution.induct) auto

lemma occurs_at_Cons_Suc: "occurs_at pat (c # cs) (Suc i) = occurs_at pat cs i"
  by (simp add: occurs_at_def)

lemma first_occurrence_Cons_Suc:
  "\<not> occurs_at pat (c # cs) 0 \<Longrightarrow>
   first_occurrence pat (c # cs) (Suc i) = first_occurrence pat cs i"
  unfolding first_occurrence_def occurs_at_Cons_Suc
proof -
  assume n: "\<not> occurs_at pat (c # cs) 0"
  have "(\<forall>j<Suc i. \<not> occurs_at pat (c # cs) j) \<longleftrightarrow> (\<forall>j<i. \<not> occurs_at pat cs j)"
  proof
    assume a: "\<forall>j<Suc i. \<not> occurs_at pat (c # cs) j"
    show "\<forall>j<i. \<not> occurs_at pat cs j"
    proof (intro allI impI)
      fix j assume "j < i"
      then have "\<not> occurs_at pat (c # cs) (Suc j)" using a by simp
      then show "\<not> occurs_at pat cs j" by (simp add: occurs_at_Cons_Suc)
    qed
  next
    assume a: "\<forall>j<i. \<not> occurs_at pat cs j"
    show "\<forall>j<Suc i. \<not> occurs_at pat (c # cs) j"
    proof (intro allI impI)
      fix j assume j: "j < Suc i"
      show "\<not> occurs_at pat (c # cs) j"
      proof (cases j)
        case 0
        with n show ?thesis by simp
      next
        case (Suc k)
        with j a show ?thesis by (simp add: occurs_at_Cons_Suc)
      qed
    qed
  qed
  then show "(occurs_at pat cs i \<and> (\<forall>j<Suc i. \<not> occurs_at pat (c # cs) j))
             = (occurs_at pat cs i \<and> (\<forall>j<i. \<not> occurs_at pat cs j))"
    by simp
qed

lemma js_indexOf_first_occurrence:
  "pat \<noteq> [] \<Longrightarrow> js_indexOf s pat = Some i \<longleftrightarrow> first_occurrence pat s i"
proof (induction s arbitrary: i)
  case Nil
  then show ?case by (auto simp: first_occurrence_def occurs_at_def)
next
  case (Cons c cs)
  show ?case
  proof (cases "occurs_at pat (c # cs) 0")
    case True
    then have "js_indexOf (c # cs) pat = Some 0" by (simp add: occurs_at_def)
    moreover have "first_occurrence pat (c # cs) i \<longleftrightarrow> i = 0"
      using True by (auto simp: first_occurrence_def)
    ultimately show ?thesis by auto
  next
    case False
    then have idx: "js_indexOf (c # cs) pat = map_option Suc (js_indexOf cs pat)"
      by (simp add: occurs_at_def)
    show ?thesis
    proof (cases i)
      case 0
      with False idx show ?thesis by (auto simp: first_occurrence_def)
    next
      case (Suc k)
      with False idx Cons.IH [OF Cons.prems, of k] show ?thesis
        by (auto simp: first_occurrence_Cons_Suc)
    qed
  qed
qed

lemma js_indexOf_None:
  assumes "pat \<noteq> []"
  shows "js_indexOf s pat = None \<longleftrightarrow> (\<forall>i. \<not> occurs_at pat s i)"
proof
  assume n: "js_indexOf s pat = None"
  show "\<forall>i. \<not> occurs_at pat s i"
  proof (rule ccontr)
    assume "\<not> (\<forall>i. \<not> occurs_at pat s i)"
    then obtain i where "occurs_at pat s i" by blast
    then have "first_occurrence pat s (LEAST i. occurs_at pat s i)"
      unfolding first_occurrence_def by (metis LeastI not_less_Least)
    then have "js_indexOf s pat = Some (LEAST i. occurs_at pat s i)"
      using assms by (simp add: js_indexOf_first_occurrence)
    with n show False by simp
  qed
next
  assume a: "\<forall>i. \<not> occurs_at pat s i"
  show "js_indexOf s pat = None"
  proof (cases "js_indexOf s pat")
    case None
    then show ?thesis .
  next
    case (Some i)
    then have "first_occurrence pat s i" using assms by (simp add: js_indexOf_first_occurrence)
    with a show ?thesis by (simp add: first_occurrence_def)
  qed
qed

lemma js_replace_first:
  "pat \<noteq> [] \<Longrightarrow> first_occurrence pat s i \<Longrightarrow>
   js_replace s pat r
   = take i s @ getSubstitution pat (take i s) (drop (i + length pat) s) r
     @ drop (i + length pat) s"
  by (simp add: js_replace_def js_indexOf_first_occurrence [symmetric])

lemma js_replace_absent:
  "pat \<noteq> [] \<Longrightarrow> \<forall>i. \<not> occurs_at pat s i \<Longrightarrow> js_replace s pat r = s"
  by (simp add: js_replace_def js_indexOf_None [symmetric])

lemma first_occurrence_append:
  assumes "pat \<noteq> []" and "hd pat \<notin> set a"
  shows "first_occurrence pat (a @ pat @ b) (length a)"
  unfolding first_occurrence_def
proof (intro conjI allI impI)
  show "occurs_at pat (a @ pat @ b) (length a)" by (simp add: occurs_at_def)
next
  fix j assume j: "j < length a"
  show "\<not> occurs_at pat (a @ pat @ b) j"
  proof
    assume "occurs_at pat (a @ pat @ b) j"
    then have "take (length pat) (drop j (a @ pat @ b)) = pat" by (simp add: occurs_at_def)
    then have "hd (drop j (a @ pat @ b)) = hd pat"
      using assms(1) by (metis hd_take length_greater_0_conv)
    moreover have "hd (drop j (a @ pat @ b)) = a ! j"
      using j by (simp add: hd_drop_conv_nth nth_append)
    ultimately show False using assms(2) j by (metis nth_mem)
  qed
qed

lemma js_indexOf_here: "pat \<noteq> [] \<Longrightarrow> js_indexOf (pat @ v) pat = Some 0"
  by (cases pat) auto

lemma js_indexOf_skip:
  "pat \<noteq> [] \<Longrightarrow> hd pat \<notin> set u \<Longrightarrow>
   js_indexOf (u @ v) pat = map_option (\<lambda>k. length u + k) (js_indexOf v pat)"
proof (induction u)
  case Nil
  then show ?case by (simp add: option.map_ident)
next
  case (Cons x u)
  then have "take (length pat) (x # u @ v) \<noteq> pat"
    by (cases pat) auto
  with Cons show ?case by (simp add: option.map_comp comp_def)
qed

lemma js_replace_at:
  assumes "pat \<noteq> []" and "hd pat \<notin> set a"
  shows "js_replace (a @ pat @ b) pat r = a @ getSubstitution pat a b r @ b"
proof -
  have "js_indexOf (a @ pat @ b) pat = Some (length a)"
    using assms by (simp add: js_indexOf_skip js_indexOf_here)
  then show ?thesis by (simp add: js_replace_def)
qed

lemma js_indexOf_FILE_after_PARENT:
  "js_indexOf (''{{PARENT}}'' @ v) ''{{FILE}}'' = map_option (\<lambda>k. 10 + k) (js_indexOf v ''{{FILE}}'')"
  by (cases "js_indexOf v ''{{FILE}}''") simp_all

lemma circular_message_file_first:
  assumes "CHR ''$'' \<notin> set child" and "CHR ''{'' \<notin> set child" and "CHR ''$'' \<notin> set parent"
    and "CHR ''{'' \<notin> set a" and "CHR ''{'' \<notin> set b"
  shows "js_replace (js_replace (a @ ''{{FILE}}'' @ b @ ''{{PARENT}}'' @ c) ''{{FILE}}'' child)
           ''{{PARENT}}'' parent
         = a @ child @ b @ parent @ c"
proof -
  have 1: "js_replace (a @ ''{{FILE}}'' @ b @ ''{{PARENT}}'' @ c) ''{{FILE}}'' child
        = a @ getSubstitution ''{{FILE}}'' a (b @ ''{{PARENT}}'' @ c) child @ b @ ''{{PARENT}}'' @ c"
    by (rule js_replace_at) (use assms(4) in simp_all)
  have g1: "getSubstitution ''{{FILE}}'' a (b @ ''{{PARENT}}'' @ c) child = child"
    by (rule getSubstitution_plain [OF assms(1)])
  have 2: "js_replace ((a @ child @ b) @ ''{{PARENT}}'' @ c) ''{{PARENT}}'' parent
        = (a @ child @ b) @ getSubstitution ''{{PARENT}}'' (a @ child @ b) c parent @ c"
    by (rule js_replace_at) (use assms(2,4,5) in simp_all)
  have g2: "getSubstitution ''{{PARENT}}'' (a @ child @ b) c parent = parent"
    by (rule getSubstitution_plain [OF assms(3)])
  show ?thesis
    using 2 unfolding 1 g1 g2 by (simp only: append_assoc)
qed

lemma take_three:
  "length p = n \<Longrightarrow> take (length a + (n + length b)) (a @ p @ b @ r) = a @ p @ b"
  by simp

lemma drop_three:
  "length p = n \<Longrightarrow> length f = m \<Longrightarrow>
   drop (length a + (n + length b) + m) (a @ p @ b @ f @ c) = c"
  by simp

lemma circular_message_parent_first:
  assumes "CHR ''$'' \<notin> set child" and "CHR ''$'' \<notin> set parent"
    and "CHR ''{'' \<notin> set a" and "CHR ''{'' \<notin> set b"
  shows "js_replace (js_replace (a @ ''{{PARENT}}'' @ b @ ''{{FILE}}'' @ c) ''{{FILE}}'' child)
           ''{{PARENT}}'' parent
         = a @ parent @ b @ child @ c"
proof -
  have h: "js_indexOf (''{{FILE}}'' @ c) ''{{FILE}}'' = Some 0"
    by (rule js_indexOf_here) simp
  have "js_indexOf (b @ ''{{FILE}}'' @ c) ''{{FILE}}''
        = map_option (\<lambda>k. length b + k) (js_indexOf (''{{FILE}}'' @ c) ''{{FILE}}'')"
    by (rule js_indexOf_skip) (use assms(4) in simp_all)
  then have ib: "js_indexOf (b @ ''{{FILE}}'' @ c) ''{{FILE}}'' = Some (length b)"
    unfolding h by simp
  have ip: "js_indexOf (''{{PARENT}}'' @ b @ ''{{FILE}}'' @ c) ''{{FILE}}'' = Some (10 + length b)"
    unfolding js_indexOf_FILE_after_PARENT ib by simp
  have "js_indexOf (a @ ''{{PARENT}}'' @ b @ ''{{FILE}}'' @ c) ''{{FILE}}''
        = map_option (\<lambda>k. length a + k)
            (js_indexOf (''{{PARENT}}'' @ b @ ''{{FILE}}'' @ c) ''{{FILE}}'')"
    by (rule js_indexOf_skip) (use assms(3) in simp_all)
  then have i: "js_indexOf (a @ ''{{PARENT}}'' @ b @ ''{{FILE}}'' @ c) ''{{FILE}}''
        = Some (length a + (10 + length b))"
    unfolding ip by simp
  have t: "take (length a + (10 + length b)) (a @ ''{{PARENT}}'' @ b @ ''{{FILE}}'' @ c)
           = a @ ''{{PARENT}}'' @ b"
    by (rule take_three) simp
  have d: "drop (length a + (10 + length b) + length ''{{FILE}}'')
             (a @ ''{{PARENT}}'' @ b @ ''{{FILE}}'' @ c) = c"
    by (rule drop_three) simp_all
  have 1: "js_replace (a @ ''{{PARENT}}'' @ b @ ''{{FILE}}'' @ c) ''{{FILE}}'' child
        = a @ ''{{PARENT}}'' @ (b @ child @ c)"
    unfolding js_replace_def i option.case t d getSubstitution_plain [OF assms(1)]
    by (simp only: append_assoc)
  have 2: "js_replace (a @ ''{{PARENT}}'' @ (b @ child @ c)) ''{{PARENT}}'' parent
        = a @ getSubstitution ''{{PARENT}}'' a (b @ child @ c) parent @ (b @ child @ c)"
    by (rule js_replace_at) (use assms(3) in simp_all)
  show ?thesis
    unfolding 1 2 getSubstitution_plain [OF assms(2)] by (simp only: append_assoc)
qed

text \<open>
  What holds for every path. For a target that does not exist, the text spliced in is the
  not-found template with its first occurrence of \<open>{{FILE}}\<close> replaced: everything of the
  template before and after that occurrence is kept as it is, further occurrences
  included. For a target in the Processed-Set, the first occurrence of \<open>{{FILE}}\<close> in the
  circular template is replaced, and then the first occurrence of \<open>{{PARENT}}\<close> in the text
  so obtained, the rest of it being kept as it is. When the paths hold neither \<open>$\<close> nor \<open>{\<close>
  and the template has \<open>{{FILE}}\<close> and then \<open>{{PARENT}}\<close> (or \<open>{{PARENT}}\<close> and then
  \<open>{{FILE}}\<close>), with no brace before and between them, these are the first occurrences of
  the two placeholders in the template: exactly they are replaced by the two paths, and
  what follows, with any further occurrence of either placeholder, is kept as it is.
\<close>

lemma placeholder_first_occurrence_only:
  "(\<not> existsSync H (resolve H folder name) \<and> first_occurrence ''{{FILE}}'' nf i
    \<longrightarrow> replace ex S H m pc folder pfile name nf cm ps sl el q
        = Some (Inr (spliceMatch m pc
            (take i nf
             @ getSubstitution ''{{FILE}}'' (take i nf) (drop (i + 8) nf) (resolve H folder name)
             @ drop (i + 8) nf))))
   \<and> (existsSync H (resolve H folder name) \<and> resolve H folder name \<in> set ps
      \<and> first_occurrence ''{{FILE}}'' cm i
      \<and> t = take i cm
             @ getSubstitution ''{{FILE}}'' (take i cm) (drop (i + 8) cm) (resolve H folder name)
             @ drop (i + 8) cm
      \<and> first_occurrence ''{{PARENT}}'' t j
    \<longrightarrow> replace ex S H m pc folder pfile name nf cm ps sl el q
        = Some (Inr (spliceMatch m pc
            (take j t
             @ getSubstitution ''{{PARENT}}'' (take j t) (drop (j + 10) t) pfile
             @ drop (j + 10) t))))
   \<and> (existsSync H (resolve H folder name) \<and> resolve H folder name \<in> set ps
      \<and> CHR ''$'' \<notin> set (resolve H folder name) \<and> CHR ''{'' \<notin> set (resolve H folder name)
      \<and> CHR ''$'' \<notin> set pfile \<and> CHR ''{'' \<notin> set a \<and> CHR ''{'' \<notin> set b
    \<longrightarrow> replace ex S H m pc folder pfile name nf (a @ ''{{FILE}}'' @ b @ ''{{PARENT}}'' @ c)
          ps sl el q
        = Some (Inr (spliceMatch m pc (a @ resolve H folder name @ b @ pfile @ c)))
      \<and> replace ex S H m pc folder pfile name nf (a @ ''{{PARENT}}'' @ b @ ''{{FILE}}'' @ c)
          ps sl el q
        = Some (Inr (spliceMatch m pc (a @ pfile @ b @ resolve H folder name @ c))))"
proof (intro conjI impI)
  assume a: "\<not> existsSync H (resolve H folder name) \<and> first_occurrence ''{{FILE}}'' nf i"
  have len: "length ''{{FILE}}'' = 8" by simp
  from a have "js_replace nf ''{{FILE}}'' (resolve H folder name)
        = take i nf
          @ getSubstitution ''{{FILE}}'' (take i nf) (drop (i + length ''{{FILE}}'') nf)
              (resolve H folder name)
          @ drop (i + length ''{{FILE}}'') nf"
    by (intro js_replace_first) auto
  then have "js_replace nf ''{{FILE}}'' (resolve H folder name)
        = take i nf
          @ getSubstitution ''{{FILE}}'' (take i nf) (drop (i + 8) nf) (resolve H folder name)
          @ drop (i + 8) nf"
    unfolding len .
  moreover from a have "\<not> existsSync H (resolve H folder name)" by simp
  ultimately show "replace ex S H m pc folder pfile name nf cm ps sl el q
        = Some (Inr (spliceMatch m pc
            (take i nf
             @ getSubstitution ''{{FILE}}'' (take i nf) (drop (i + 8) nf) (resolve H folder name)
             @ drop (i + 8) nf)))"
    by (simp add: replace_not_found)
next
  assume a: "existsSync H (resolve H folder name) \<and> resolve H folder name \<in> set ps
      \<and> first_occurrence ''{{FILE}}'' cm i
      \<and> t = take i cm
             @ getSubstitution ''{{FILE}}'' (take i cm) (drop (i + 8) cm) (resolve H folder name)
             @ drop (i + 8) cm
      \<and> first_occurrence ''{{PARENT}}'' t j"
  have len: "length ''{{FILE}}'' = 8" "length ''{{PARENT}}'' = 10" by simp_all
  from a have "js_replace cm ''{{FILE}}'' (resolve H folder name)
        = take i cm
          @ getSubstitution ''{{FILE}}'' (take i cm) (drop (i + length ''{{FILE}}'') cm)
              (resolve H folder name)
          @ drop (i + length ''{{FILE}}'') cm"
    by (intro js_replace_first) auto
  with a have first: "js_replace cm ''{{FILE}}'' (resolve H folder name) = t"
    unfolding len by simp
  from a have "js_replace t ''{{PARENT}}'' pfile
        = take j t
          @ getSubstitution ''{{PARENT}}'' (take j t) (drop (j + length ''{{PARENT}}'') t) pfile
          @ drop (j + length ''{{PARENT}}'') t"
    by (intro js_replace_first) auto
  then have second: "js_replace t ''{{PARENT}}'' pfile
        = take j t @ getSubstitution ''{{PARENT}}'' (take j t) (drop (j + 10) t) pfile
          @ drop (j + 10) t"
    unfolding len .
  from a have "existsSync H (resolve H folder name)"
    and "resolve H folder name \<in> set ps" by simp_all
  then have "replace ex S H m pc folder pfile name nf cm ps sl el q
        = Some (Inr (spliceMatch m pc
            (js_replace (js_replace cm ''{{FILE}}'' (resolve H folder name)) ''{{PARENT}}'' pfile)))"
    by (rule replace_circular)
  then show "replace ex S H m pc folder pfile name nf cm ps sl el q
        = Some (Inr (spliceMatch m pc
            (take j t
             @ getSubstitution ''{{PARENT}}'' (take j t) (drop (j + 10) t) pfile
             @ drop (j + 10) t)))"
    unfolding first second .
next
  assume a: "existsSync H (resolve H folder name) \<and> resolve H folder name \<in> set ps
      \<and> CHR ''$'' \<notin> set (resolve H folder name) \<and> CHR ''{'' \<notin> set (resolve H folder name)
      \<and> CHR ''$'' \<notin> set pfile \<and> CHR ''{'' \<notin> set a \<and> CHR ''{'' \<notin> set b"
  then have "js_replace (js_replace (a @ ''{{FILE}}'' @ b @ ''{{PARENT}}'' @ c) ''{{FILE}}''
                 (resolve H folder name)) ''{{PARENT}}'' pfile
             = a @ resolve H folder name @ b @ pfile @ c"
    by (intro circular_message_file_first) auto
  moreover from a have "existsSync H (resolve H folder name)"
    and "resolve H folder name \<in> set ps" by simp_all
  ultimately show "replace ex S H m pc folder pfile name nf (a @ ''{{FILE}}'' @ b @ ''{{PARENT}}'' @ c)
          ps sl el q
        = Some (Inr (spliceMatch m pc (a @ resolve H folder name @ b @ pfile @ c)))"
    by (simp add: replace_circular)
next
  assume a: "existsSync H (resolve H folder name) \<and> resolve H folder name \<in> set ps
      \<and> CHR ''$'' \<notin> set (resolve H folder name) \<and> CHR ''{'' \<notin> set (resolve H folder name)
      \<and> CHR ''$'' \<notin> set pfile \<and> CHR ''{'' \<notin> set a \<and> CHR ''{'' \<notin> set b"
  then have "js_replace (js_replace (a @ ''{{PARENT}}'' @ b @ ''{{FILE}}'' @ c) ''{{FILE}}''
                 (resolve H folder name)) ''{{PARENT}}'' pfile
             = a @ pfile @ b @ resolve H folder name @ c"
    by (intro circular_message_parent_first) auto
  moreover from a have "existsSync H (resolve H folder name)"
    and "resolve H folder name \<in> set ps" by simp_all
  ultimately show "replace ex S H m pc folder pfile name nf (a @ ''{{PARENT}}'' @ b @ ''{{FILE}}'' @ c)
          ps sl el q
        = Some (Inr (spliceMatch m pc (a @ pfile @ b @ resolve H folder name @ c)))"
    by (simp add: replace_circular)
qed

text \<open>
  A not-found template with two \<open>{{FILE}}\<close> and two circular templates with two of each
  placeholder: only the first ones are replaced.
\<close>

lemma placeholder_first_occurrence_only_examples:
  "replace (execute 1 emptySettings (demoHost [(''/r/root.md'', ''x'')]))
     emptySettings (demoHost [(''/r/root.md'', ''x'')])
     \<lparr>match_index = 2, match_text = '':(nope.md)'',
        match_groups = [None, None, None, Some ''nope.md'', None, None, None]\<rparr>
     ''x :(nope.md)'' ''/r'' ''/r/root.md'' ''nope.md''
     ''No {{FILE}} or {{FILE}}'' ''Loop {{FILE}} {{PARENT}}'' [''/r/root.md'']
     None None None
   = Some (Inr ''x No /r/nope.md or {{FILE}}'')
   \<and> replace (execute 1 emptySettings (demoHost [(''/r/root.md'', ''x'')]))
     emptySettings (demoHost [(''/r/root.md'', ''x'')])
     \<lparr>match_index = 2, match_text = '':(root.md)'',
        match_groups = [None, None, None, Some ''root.md'', None, None, None]\<rparr>
     ''x :(root.md)'' ''/r'' ''/r/root.md'' ''root.md''
     ''No {{FILE}}'' ''{{PARENT}}, {{PARENT}}, {{FILE}}, {{FILE}}''
     [''/r/root.md''] None None None
   = Some (Inr ''x /r/root.md, {{PARENT}}, /r/root.md, {{FILE}}'')
   \<and> replace (execute 1 emptySettings (demoHost [(''/r/root.md'', ''x'')]))
     emptySettings (demoHost [(''/r/root.md'', ''x'')])
     \<lparr>match_index = 2, match_text = '':(root.md)'',
        match_groups = [None, None, None, Some ''root.md'', None, None, None]\<rparr>
     ''x :(root.md)'' ''/r'' ''/r/root.md'' ''root.md''
     ''No {{FILE}}'' (''Loop '' @ ''{{FILE}}'' @ '' in '' @ ''{{PARENT}}'' @ '', {{FILE}} in {{PARENT}}'')
     [''/r/root.md''] None None None
   = Some (Inr ''x Loop /r/root.md in /r/root.md, {{FILE}} in {{PARENT}}'')"
proof -
  let ?H = "demoHost [(''/r/root.md'', ''x'')]"
  let ?m = "\<lparr>match_index = 2, match_text = '':(nope.md)'',
        match_groups = [None, None, None, Some ''nope.md'', None, None, None]\<rparr>"
  let ?m' = "\<lparr>match_index = 2, match_text = '':(root.md)'',
        match_groups = [None, None, None, Some ''root.md'', None, None, None]\<rparr>"
  have idx: "js_indexOf ''No {{FILE}} or {{FILE}}'' ''{{FILE}}'' = Some 3" by code_simp
  have occ: "first_occurrence ''{{FILE}}'' ''No {{FILE}} or {{FILE}}'' 3"
    by (rule js_indexOf_first_occurrence [THEN iffD1, OF _ idx]) simp
  have nf: "\<not> existsSync ?H (resolve ?H ''/r'' ''nope.md'')" by code_simp
  have "replace (execute 1 emptySettings ?H) emptySettings ?H ?m ''x :(nope.md)'' ''/r'' ''/r/root.md''
          ''nope.md'' ''No {{FILE}} or {{FILE}}'' ''Loop {{FILE}} {{PARENT}}'' [''/r/root.md'']
          None None None
        = Some (Inr (spliceMatch ?m ''x :(nope.md)''
            (take 3 ''No {{FILE}} or {{FILE}}''
             @ getSubstitution ''{{FILE}}'' (take 3 ''No {{FILE}} or {{FILE}}'')
                 (drop (3 + 8) ''No {{FILE}} or {{FILE}}'') (resolve ?H ''/r'' ''nope.md'')
             @ drop (3 + 8) ''No {{FILE}} or {{FILE}}'')))"
    by (rule placeholder_first_occurrence_only [THEN conjunct1, THEN mp, OF conjI [OF nf occ]])
  also have "\<dots> = Some (Inr ''x No /r/nope.md or {{FILE}}'')" by code_simp
  finally have first: "replace (execute 1 emptySettings ?H) emptySettings ?H ?m ''x :(nope.md)'' ''/r''
          ''/r/root.md'' ''nope.md'' ''No {{FILE}} or {{FILE}}'' ''Loop {{FILE}} {{PARENT}}''
          [''/r/root.md''] None None None = Some (Inr ''x No /r/nope.md or {{FILE}}'')" .
  let ?cm = "''{{PARENT}}, {{PARENT}}, {{FILE}}, {{FILE}}''"
  let ?t = "''{{PARENT}}, {{PARENT}}, /r/root.md, {{FILE}}''"
  have ex: "existsSync ?H (resolve ?H ''/r'' ''root.md'')
            \<and> resolve ?H ''/r'' ''root.md'' \<in> set [''/r/root.md'']"
    by code_simp
  have i: "js_indexOf ?cm ''{{FILE}}'' = Some 24" by code_simp
  have occ_i: "first_occurrence ''{{FILE}}'' ?cm 24"
    by (rule js_indexOf_first_occurrence [THEN iffD1, OF _ i]) simp
  have t: "?t = take 24 ?cm
             @ getSubstitution ''{{FILE}}'' (take 24 ?cm) (drop (24 + 8) ?cm) (resolve ?H ''/r'' ''root.md'')
             @ drop (24 + 8) ?cm"
    by code_simp
  have j: "js_indexOf ?t ''{{PARENT}}'' = Some 0" by code_simp
  have occ_j: "first_occurrence ''{{PARENT}}'' ?t 0"
    by (rule js_indexOf_first_occurrence [THEN iffD1, OF _ j]) simp
  have "replace (execute 1 emptySettings ?H) emptySettings ?H ?m' ''x :(root.md)'' ''/r'' ''/r/root.md''
          ''root.md'' ''No {{FILE}}'' ?cm [''/r/root.md''] None None None
        = Some (Inr (spliceMatch ?m' ''x :(root.md)''
            (take 0 ?t @ getSubstitution ''{{PARENT}}'' (take 0 ?t) (drop (0 + 10) ?t) ''/r/root.md''
             @ drop (0 + 10) ?t)))"
    by (rule placeholder_first_occurrence_only
               [where i = 24, THEN conjunct2, THEN conjunct1, THEN mp,
                OF conjI [OF conjunct1 [OF ex] conjI [OF conjunct2 [OF ex]
                     conjI [OF occ_i conjI [OF t occ_j]]]]])
  also have "\<dots> = Some (Inr ''x /r/root.md, {{PARENT}}, /r/root.md, {{FILE}}'')"
    by code_simp
  finally have general: "replace (execute 1 emptySettings ?H) emptySettings ?H ?m' ''x :(root.md)''
          ''/r'' ''/r/root.md'' ''root.md'' ''No {{FILE}}'' ?cm [''/r/root.md''] None None None
        = Some (Inr ''x /r/root.md, {{PARENT}}, /r/root.md, {{FILE}}'')" .
  have h: "existsSync ?H (resolve ?H ''/r'' ''root.md'')
      \<and> resolve ?H ''/r'' ''root.md'' \<in> set [''/r/root.md'']
      \<and> CHR ''$'' \<notin> set (resolve ?H ''/r'' ''root.md'')
      \<and> CHR ''{'' \<notin> set (resolve ?H ''/r'' ''root.md'')
      \<and> CHR ''$'' \<notin> set ''/r/root.md'' \<and> CHR ''{'' \<notin> set ''Loop '' \<and> CHR ''{'' \<notin> set '' in ''"
    by code_simp
  have "replace (execute 1 emptySettings ?H) emptySettings ?H ?m' ''x :(root.md)'' ''/r'' ''/r/root.md''
          ''root.md'' ''No {{FILE}}''
          (''Loop '' @ ''{{FILE}}'' @ '' in '' @ ''{{PARENT}}'' @ '', {{FILE}} in {{PARENT}}'')
          [''/r/root.md''] None None None
        = Some (Inr (spliceMatch ?m' ''x :(root.md)''
            (''Loop '' @ resolve ?H ''/r'' ''root.md'' @ '' in '' @ ''/r/root.md''
             @ '', {{FILE}} in {{PARENT}}'')))"
    by (rule placeholder_first_occurrence_only
               [THEN conjunct2, THEN conjunct2, THEN mp, OF h, THEN conjunct1])
  also have "\<dots> = Some (Inr ''x Loop /r/root.md in /r/root.md, {{FILE}} in {{PARENT}}'')"
    by code_simp
  finally have second: "replace (execute 1 emptySettings ?H) emptySettings ?H ?m' ''x :(root.md)''
          ''/r'' ''/r/root.md'' ''root.md'' ''No {{FILE}}''
          (''Loop '' @ ''{{FILE}}'' @ '' in '' @ ''{{PARENT}}'' @ '', {{FILE}} in {{PARENT}}'')
          [''/r/root.md''] None None None
        = Some (Inr ''x Loop /r/root.md in /r/root.md, {{FILE}} in {{PARENT}}'')" .
  from first general second show ?thesis by (intro conjI)
qed

text \<open>
  Claim C9 says that, for the circular message, the first occurrence of \<open>{{PARENT}}\<close> in the
  configured template is replaced and nothing else. The second \<open>replace\<close> of line 162 runs
  on the text that the first one has made, which holds the path of the target. The
  document \<open>/r/{{PARENT}}.md\<close> that includes itself gets the default template with
  \<open>{{FILE}}\<close> replaced by its path, and then the \<open>{{PARENT}}\<close> inside that path replaced by
  its path again; the \<open>{{PARENT}}\<close> of the template, the only one it has, is left as it
  is.
\<close>

theorem placeholder_in_path_failing_input:
  "resolve (demoHost [(''/r/{{PARENT}}.md'', '':({{PARENT}}.md)'')]) ''/r'' ''{{PARENT}}.md''
     = ''/r/{{PARENT}}.md''
   \<and> js_replace DEFAULT_CIRCULAR_MESSAGE ''{{FILE}}'' ''/r/{{PARENT}}.md''
     = ''Circular reference between '' @ [CHR 0x27] @ ''/r/{{PARENT}}.md'' @ [CHR 0x27]
       @ '' and '' @ [CHR 0x27] @ ''{{PARENT}}'' @ [CHR 0x27]
   \<and> execute 3 emptySettings (demoHost [(''/r/{{PARENT}}.md'', '':({{PARENT}}.md)'')])
       '':({{PARENT}}.md)'' ''/r/{{PARENT}}.md'' None
     = Some (Inr (''Circular reference between '' @ [CHR 0x27] @ ''/r//r/{{PARENT}}.md.md''
                  @ [CHR 0x27] @ '' and '' @ [CHR 0x27] @ ''{{PARENT}}'' @ [CHR 0x27]))"
  by code_simp


section \<open>Targets that do not exist, and self-inclusion\<close>

text \<open>
  What holds for every path: a directive of the first syntax whose target does not exist
  is replaced by the message that \<open>String.replace\<close> makes from the template, whatever
  \<open>readFileSync\<close> would give (the file is not read) and with no call of \<open>execute\<close> on it;
  when no directive is left after that, the run returns, with any fuel from 3 on. The
  same holds of a target in the Processed-Set (\<open>execute_circular_commonmark\<close> and
  \<open>execute_circular_markdownIt\<close> above). For a path without \<open>$\<close> (and without \<open>{\<close> for the
  circular message), the default templates give the messages with the path in the place
  of the placeholders.
\<close>

lemma DEFAULT_CIRCULAR_MESSAGE_shape:
  "DEFAULT_CIRCULAR_MESSAGE
   = (''Circular reference between '' @ [CHR 0x27]) @ ''{{FILE}}''
     @ ([CHR 0x27] @ '' and '' @ [CHR 0x27]) @ ''{{PARENT}}'' @ [CHR 0x27]"
  by (simp add: DEFAULT_CIRCULAR_MESSAGE_def)

lemma DEFAULT_NOT_FOUND_MESSAGE_shape:
  "DEFAULT_NOT_FOUND_MESSAGE = (''File '' @ [CHR 0x27]) @ ''{{FILE}}'' @ ([CHR 0x27] @ '' not found'')"
  by (simp add: DEFAULT_NOT_FOUND_MESSAGE_def)

lemma default_circular_message_plain:
  assumes "CHR ''$'' \<notin> set child" and "CHR ''{'' \<notin> set child" and "CHR ''$'' \<notin> set parent"
  shows "js_replace (js_replace DEFAULT_CIRCULAR_MESSAGE ''{{FILE}}'' child) ''{{PARENT}}'' parent
         = ''Circular reference between '' @ [CHR 0x27] @ child @ [CHR 0x27]
           @ '' and '' @ [CHR 0x27] @ parent @ [CHR 0x27]"
proof -
  have "js_replace (js_replace ((''Circular reference between '' @ [CHR 0x27]) @ ''{{FILE}}''
            @ ([CHR 0x27] @ '' and '' @ [CHR 0x27]) @ ''{{PARENT}}'' @ [CHR 0x27])
          ''{{FILE}}'' child) ''{{PARENT}}'' parent
        = (''Circular reference between '' @ [CHR 0x27]) @ child
          @ ([CHR 0x27] @ '' and '' @ [CHR 0x27]) @ parent @ [CHR 0x27]"
    by (rule circular_message_file_first [OF assms]) simp_all
  then show ?thesis
    unfolding DEFAULT_CIRCULAR_MESSAGE_shape [symmetric] by (simp only: append_assoc)
qed

lemma default_not_found_message_plain:
  assumes "CHR ''$'' \<notin> set child"
  shows "js_replace DEFAULT_NOT_FOUND_MESSAGE ''{{FILE}}'' child
         = ''File '' @ [CHR 0x27] @ child @ [CHR 0x27] @ '' not found''"
proof -
  have "js_replace ((''File '' @ [CHR 0x27]) @ ''{{FILE}}'' @ ([CHR 0x27] @ '' not found''))
          ''{{FILE}}'' child
        = (''File '' @ [CHR 0x27])
          @ getSubstitution ''{{FILE}}'' (''File '' @ [CHR 0x27]) ([CHR 0x27] @ '' not found'') child
          @ ([CHR 0x27] @ '' not found'')"
    by (rule js_replace_at) simp_all
  then show ?thesis
    unfolding DEFAULT_NOT_FOUND_MESSAGE_shape [symmetric] getSubstitution_plain [OF assms]
    by (simp only: append_assoc)
qed

lemma execute_not_found_commonmark:
  assumes "orDefaultBool (commonmarkRegex S) DEFAULT_COMMONMARK_REGEX"
    and "regex_exec COMMONMARK_PATTERN 6 content = Some m" and "capture m 3 = Some name"
    and "\<not> existsSync H (resolve H (dirname H file) (js_trim name))"
    and "content' = spliceMatch m content
           (js_replace (orDefaultString (notFoundMessage S) DEFAULT_NOT_FOUND_MESSAGE) ''{{FILE}}''
              (resolve H (dirname H file) (js_trim name)))"
    and "regex_exec COMMONMARK_PATTERN 6 content' = None"
    and "orDefaultBool (markdownItRegex S) DEFAULT_MARKDOWN_IT_REGEX
         \<longrightarrow> regex_exec MARKDOWN_IT_PATTERN 4 content' = None"
  shows "execute (Suc (Suc (Suc n))) S H content file pf = Some (Inr content')"
  using assms by (simp add: Let_def commonmarkStep_def replace_not_found)

text \<open>
  Claim C4 says that the not-found message has \<open>{{FILE}}\<close> replaced by the resolved path
  of the target. The path is passed to \<open>String.replace\<close> as the replacement text, in which
  \<open>$$\<close>, \<open>$&\<close>, \<open>$`\<close> and \<open>$'\<close> are patterns: for the target \<open>a$$b.md\<close>, which resolves to
  \<open>/r/a$$b.md\<close> and does not exist, the message names \<open>/r/a$b.md\<close>.
\<close>

theorem not_found_dollar_failing_input:
  "resolve (demoHost [(''/r/doc.md'', '':(a$$b.md)'')]) ''/r'' ''a$$b.md'' = ''/r/a$$b.md''
   \<and> \<not> existsSync (demoHost [(''/r/doc.md'', '':(a$$b.md)'')]) ''/r/a$$b.md''
   \<and> execute 3 emptySettings (demoHost [(''/r/doc.md'', '':(a$$b.md)'')]) '':(a$$b.md)''
       ''/r/doc.md'' None
     = Some (Inr (''File '' @ [CHR 0x27] @ ''/r/a$b.md'' @ [CHR 0x27] @ '' not found''))"
  by code_simp

text \<open>
  Claim C3 says that a document whose only directive targets the document itself gets the
  circular message with \<open>{{FILE}}\<close> and \<open>{{PARENT}}\<close> both filled with the path of the
  document. For the same reason, the document \<open>/r/a$$.md\<close> that includes itself gets a
  message that names \<open>/r/a$.md\<close> twice.
\<close>

theorem self_inclusion_dollar_failing_input:
  "resolve (demoHost [(''/r/a$$.md'', '':(a$$.md)'')]) ''/r'' ''a$$.md'' = ''/r/a$$.md''
   \<and> execute 3 emptySettings (demoHost [(''/r/a$$.md'', '':(a$$.md)'')]) '':(a$$.md)''
       ''/r/a$$.md'' None
     = Some (Inr (''Circular reference between '' @ [CHR 0x27] @ ''/r/a$.md'' @ [CHR 0x27]
                  @ '' and '' @ [CHR 0x27] @ ''/r/a$.md'' @ [CHR 0x27]))"
  by code_simp


end
